theory Spec2Isabelle
  imports Complex_Main "HOL-Library.Char_ord" "HOL-Library.List_Lexorder" "HOL-Library.Sublist"
    "HOL-Library.Multiset"
begin

section \<open>The file system as the engine sees it\<close>

text \<open>
  The snapshot engine of \<^verbatim>\<open>backup.py\<close> works on two directories: the save (source)
  directory and the backup root. A directory is the list of its entries in the order
  in which the operating system enumerates them (\<^verbatim>\<open>os.walk\<close>, \<^verbatim>\<open>Path.iterdir\<close>,
  \<^verbatim>\<open>glob.glob\<close>); a file is its bytes. Names are byte strings, compared as Python
  compares \<^verbatim>\<open>str\<close>: lexicographically, character by character. Names are looked up
  as they are stored; on a file system that ignores case, a directory is taken to
  hold no two names that differ only in case.
\<close>

datatype node = File string | Dir "(string \<times> node) list"

type_synonym dir = "(string \<times> node) list"

definition lookup :: "dir \<Rightarrow> string \<Rightarrow> node option" where
  "lookup d n = map_of d n"

definition remove_entry :: "string \<Rightarrow> dir \<Rightarrow> dir" where
  "remove_entry n d = filter (\<lambda>e. fst e \<noteq> n) d"

text \<open>Writing an entry: an existing name keeps its place, a new one is enumerated last.\<close>

fun put_entry :: "string \<Rightarrow> node \<Rightarrow> dir \<Rightarrow> dir" where
  "put_entry n v [] = [(n, v)]"
| "put_entry n v ((k, w) # es) = (if k = n then (n, v) # es else (k, w) # put_entry n v es)"

text \<open>\<^verbatim>\<open>os.replace(src, dst)\<close> and a finished \<^verbatim>\<open>shutil.move(src, dst)\<close>, for a
  destination that does not exist: the tree is now under the new name.\<close>

definition rename_entry :: "string \<Rightarrow> string \<Rightarrow> dir \<Rightarrow> dir" where
  "rename_entry src dst d =
     (case lookup d src of None \<Rightarrow> d | Some v \<Rightarrow> put_entry dst v (remove_entry src d))"

text \<open>\<^verbatim>\<open>sum(len(files) for _, _, files in os.walk(p))\<close>\<close>

fun count_files :: "node \<Rightarrow> nat" and count_files_in :: "dir \<Rightarrow> nat" where
  "count_files (File c) = 1"
| "count_files (Dir es) = count_files_in es"
| "count_files_in [] = 0"
| "count_files_in ((n, v) # es) = count_files v + count_files_in es"

text \<open>\<^verbatim>\<open>get_directory_size\<close>: the sizes of all files under a directory, added up.\<close>

fun node_size :: "node \<Rightarrow> nat" and get_directory_size :: "dir \<Rightarrow> nat" where
  "node_size (File c) = length c"
| "node_size (Dir es) = get_directory_size es"
| "get_directory_size [] = 0"
| "get_directory_size ((n, v) # es) = node_size v + get_directory_size es"

section \<open>Errors, floats and the configuration of a \<^verbatim>\<open>SaveBackupManager\<close>\<close>

text \<open>The exceptions the engine meets: \<^verbatim>\<open>PermissionError\<close>, another \<^verbatim>\<open>OSError\<close> with its
  \<^verbatim>\<open>errno\<close>, and the two that \<^verbatim>\<open>time.sleep\<close> raises, which are not \<^verbatim>\<open>OSError\<close>s.\<close>

datatype py_error = PermissionError | OSError nat | ValueError | OverflowError

fun is_os_error :: "py_error \<Rightarrow> bool" where
  "is_os_error PermissionError = True"
| "is_os_error (OSError n) = True"
| "is_os_error ValueError = False"
| "is_os_error OverflowError = False"

definition ENOENT :: nat where "ENOENT = 2"
definition EXDEV :: nat where "EXDEV = 18"
definition ENOTDIR :: nat where "ENOTDIR = 20"

text \<open>A Python \<^verbatim>\<open>float\<close>: a finite value or one of the three special ones.\<close>

datatype pyfloat = Finite real | PosInf | NegInf | NaN

text \<open>
  The arguments of the constructor, and the platform: \<open>is_windows\<close> is
  \<^verbatim>\<open>os.name == 'nt'\<close>, \<open>round_double\<close> rounds a real product to the \<^verbatim>\<open>float\<close>
  Python computes for it (an infinity when it overflows), and \<open>sleep_overflows\<close>
  says which finite lengths \<^verbatim>\<open>time.sleep\<close> cannot convert to its clock's unit.
  \<open>backup_dir\<close> is the path of the backup root as a string.
\<close>

record config =
  backup_dir :: string
  max_backups :: int
  skip_locked_files :: bool
  retries :: int
  retry_delay :: pyfloat
  is_windows :: bool
  round_double :: "real \<Rightarrow> pyfloat"
  sleep_overflows :: "real \<Rightarrow> bool"

text \<open>\<^verbatim>\<open>self.retry_delay * attempt\<close>, for an attempt number that is at least one.\<close>

definition float_times :: "config \<Rightarrow> pyfloat \<Rightarrow> nat \<Rightarrow> pyfloat" where
  "float_times cfg x a =
     (case x of
        Finite r \<Rightarrow> round_double cfg (r * real a)
      | PosInf \<Rightarrow> PosInf
      | NegInf \<Rightarrow> NegInf
      | NaN \<Rightarrow> NaN)"

text \<open>
  What \<^verbatim>\<open>time.sleep(d)\<close> raises, if anything: \<^verbatim>\<open>ValueError\<close> for a NaN,
  \<^verbatim>\<open>OverflowError\<close> for a length it cannot convert, \<^verbatim>\<open>ValueError\<close> for a negative one.
\<close>

definition sleep_error :: "config \<Rightarrow> pyfloat \<Rightarrow> py_error option" where
  "sleep_error cfg d =
     (case d of
        NaN \<Rightarrow> Some ValueError
      | PosInf \<Rightarrow> Some OverflowError
      | NegInf \<Rightarrow> Some OverflowError
      | Finite r \<Rightarrow>
          if sleep_overflows cfg r then Some OverflowError
          else if r < 0 then Some ValueError
          else None)"

section \<open>Copying one file: \<^verbatim>\<open>_safe_copy\<close>\<close>

text \<open>
  What \<^verbatim>\<open>_win_read_file_to_path\<close> meets: \<^verbatim>\<open>CreateFileW\<close> gives no handle (the
  function returns \<^verbatim>\<open>False\<close> and the destination is untouched); something raises,
  after the destination was opened for writing (then it holds the bytes given) or
  before (\<open>None\<close>); or the handle is read until \<^verbatim>\<open>ReadFile\<close> fails or reads nothing,
  the bytes read so far are in the destination and the function returns \<^verbatim>\<open>True\<close>.
\<close>

datatype win_read = WinInvalidHandle | WinRaises "string option" | WinRead string

text \<open>
  One pass of the loop body: \<^verbatim>\<open>shutil.copy2\<close> succeeds, or it raises. \<^verbatim>\<open>copy2\<close> opens
  the destination for writing once it has opened the source, and nothing removes
  the destination when it raises later: a failure carries what it left there
  (\<open>None\<close> when it raised before opening the destination), and what the Windows
  fallback would meet.
\<close>

datatype attempt = CopyOk | CopyFails py_error "string option" win_read

datatype copy_outcome = Copied | CopiedByFallback | Skipped | Raised py_error | LoopEnded

datatype event = Attempt nat | Sleep pyfloat

text \<open>How a call of \<^verbatim>\<open>_safe_copy\<close> ends, the destination file afterwards (\<open>None\<close>: there
  is none) and what the call did: the attempts made and the delays slept, in order.\<close>

record copy_result =
  outcome :: copy_outcome
  destination :: "string option"
  events :: "event list"

definition overwritten :: "string option \<Rightarrow> string option \<Rightarrow> string option" where
  "overwritten dst written = (case written of None \<Rightarrow> dst | Some bs \<Rightarrow> Some bs)"

text \<open>The fallback as \<^verbatim>\<open>_safe_copy\<close> uses it, inside \<^verbatim>\<open>try: ... except Exception: pass\<close>
  and on Windows only: whether it returned \<^verbatim>\<open>True\<close>, and the destination afterwards.\<close>

fun win_read_file_to_path :: "config \<Rightarrow> win_read \<Rightarrow> string option \<Rightarrow> bool \<times> string option" where
  "win_read_file_to_path cfg (WinRead bs) dst =
     (if is_windows cfg then (True, Some bs) else (False, dst))"
| "win_read_file_to_path cfg WinInvalidHandle dst = (False, dst)"
| "win_read_file_to_path cfg (WinRaises written) dst =
     (if is_windows cfg then (False, overwritten dst written) else (False, dst))"

text \<open>
  The body of \<^verbatim>\<open>for attempt in range(1, max(1, self.retries) + 1)\<close>, over the attempt
  numbers still to come, for a source holding \<open>src\<close> and the destination \<open>dst\<close>.
  Only \<^verbatim>\<open>PermissionError\<close> and \<^verbatim>\<open>OSError\<close> are caught; \<^verbatim>\<open>time.sleep\<close> is called inside
  the handler, so what it raises leaves the function.
\<close>

fun safe_copy_loop ::
    "config \<Rightarrow> (nat \<Rightarrow> attempt) \<Rightarrow> string \<Rightarrow> string option \<Rightarrow> nat list \<Rightarrow> copy_result" where
  "safe_copy_loop cfg att src dst [] = \<lparr>outcome = LoopEnded, destination = dst, events = []\<rparr>"
| "safe_copy_loop cfg att src dst (a # rest) =
     (case att a of
        CopyOk \<Rightarrow> \<lparr>outcome = Copied, destination = Some src, events = [Attempt a]\<rparr>
      | CopyFails err written w \<Rightarrow>
          if \<not> is_os_error err
          then \<lparr>outcome = Raised err, destination = overwritten dst written,
                events = [Attempt a]\<rparr>
          else
            (case win_read_file_to_path cfg w (overwritten dst written) of
               (True, dst') \<Rightarrow>
                 \<lparr>outcome = CopiedByFallback, destination = dst', events = [Attempt a]\<rparr>
             | (False, dst') \<Rightarrow>
                 if int a < retries cfg
                 then (case sleep_error cfg (float_times cfg (retry_delay cfg) a) of
                         Some serr \<Rightarrow>
                           \<lparr>outcome = Raised serr, destination = dst', events = [Attempt a]\<rparr>
                       | None \<Rightarrow>
                           (let r = safe_copy_loop cfg att src dst' rest
                            in r\<lparr>events := Attempt a
                                   # Sleep (float_times cfg (retry_delay cfg) a) # events r\<rparr>))
                 else if skip_locked_files cfg
                 then \<lparr>outcome = Skipped, destination = dst', events = [Attempt a]\<rparr>
                 else \<lparr>outcome = Raised err, destination = dst', events = [Attempt a]\<rparr>))"

definition safe_copy ::
    "config \<Rightarrow> (nat \<Rightarrow> attempt) \<Rightarrow> string \<Rightarrow> string option \<Rightarrow> copy_result" where
  "safe_copy cfg att src dst =
     safe_copy_loop cfg att src dst [1 ..< nat (max 1 (retries cfg)) + 1]"






section \<open>The directory digest: \<^verbatim>\<open>compute_directory_sha256\<close>\<close>

text \<open>
  What reading one file meets inside the \<^verbatim>\<open>try\<close> of the loop body: everything
  works, \<^verbatim>\<open>os.stat\<close> raises, \<^verbatim>\<open>open\<close> raises, or a \<^verbatim>\<open>read\<close> raises after some
  chunks have gone into the hash.
\<close>

datatype file_access = ReadOk | StatFails | OpenFails | ReadFailsAfter nat

definition digit_char :: "nat \<Rightarrow> char" where
  "digit_char d = ''0123456789'' ! (d mod 10)"

text \<open>\<^verbatim>\<open>str(n)\<close> for a size.\<close>

function str_nat :: "nat \<Rightarrow> string" where
  "str_nat n = (if n < 10 then [digit_char n] else str_nat (n div 10) @ [digit_char (n mod 10)])"
  by pat_completeness auto
termination
  by (relation "measure id") auto

text \<open>The chunks \<^verbatim>\<open>f.read(n)\<close> returns until it returns nothing.\<close>

function read_chunks :: "nat \<Rightarrow> string \<Rightarrow> string list" where
  "read_chunks n bs = (if n = 0 \<or> bs = [] then [] else take n bs # read_chunks n (drop n bs))"
  by pat_completeness auto
termination
  by (relation "measure (\<lambda>(n, bs). length bs)") auto

text \<open>The \<^verbatim>\<open>files\<close> and \<^verbatim>\<open>dirs\<close> of one \<^verbatim>\<open>os.walk\<close> step, in enumeration order.\<close>

fun files_of :: "dir \<Rightarrow> (string \<times> string) list" where
  "files_of [] = []"
| "files_of ((n, File c) # es) = (n, c) # files_of es"
| "files_of ((n, Dir d) # es) = files_of es"

fun dirs_of :: "dir \<Rightarrow> (string \<times> dir) list" where
  "dirs_of [] = []"
| "dirs_of ((n, File c) # es) = dirs_of es"
| "dirs_of ((n, Dir d) # es) = (n, d) # dirs_of es"

text \<open>\<^verbatim>\<open>.replace('\\', '/')\<close> on the relative path.\<close>

definition normalize_sep :: "string \<Rightarrow> string" where
  "normalize_sep p = map (\<lambda>c. if c = CHR 0x5C then CHR ''/'' else c) p"

text \<open>The \<^verbatim>\<open>h.update\<close> calls made for one file, in order.\<close>

definition feed_file :: "file_access \<Rightarrow> string \<Rightarrow> string \<Rightarrow> string list" where
  "feed_file a rel c =
     (case a of
        ReadOk \<Rightarrow> [rel, str_nat (length c)] @ read_chunks 8192 c
      | StatFails \<Rightarrow> [rel, ''__unreadable__'']
      | OpenFails \<Rightarrow> [rel, str_nat (length c), ''__unreadable__'']
      | ReadFailsAfter k \<Rightarrow>
          [rel, str_nat (length c)] @ take k (read_chunks 8192 c) @ [''__unreadable__''])"

text \<open>
  The loop \<^verbatim>\<open>for root, dirs, files in os.walk(path)\<close> with \<^verbatim>\<open>dirs.sort()\<close> and
  \<^verbatim>\<open>files.sort()\<close>: the files of a directory in sorted order, then its
  subdirectories in sorted order, each walked the same way. \<open>pre\<close> is the path of
  the directory relative to the start, ending in a separator unless empty; \<open>acc\<close>
  says what reading the file at a relative path meets.
\<close>

function walk_updates :: "(string \<Rightarrow> file_access) \<Rightarrow> string \<Rightarrow> dir \<Rightarrow> string list" where
  "walk_updates acc pre es =
     concat (map (\<lambda>(n, c). feed_file (acc (normalize_sep (pre @ n))) (normalize_sep (pre @ n)) c)
                 (sort_key fst (files_of es)))
     @ concat (map (\<lambda>(n, d). walk_updates acc (pre @ n @ ''/'') d) (sort_key fst (dirs_of es)))"
  by pat_completeness auto
termination
proof -
  have smaller: "size_list (size_prod (\<lambda>_. 0) size) d < size_list (size_prod (\<lambda>_. 0) size) es"
    if "(n, d) \<in> set (dirs_of es)" for n d and es :: dir
    using that by (induction es rule: dirs_of.induct) auto
  show ?thesis
    by (relation "measure (\<lambda>(acc, pre, es). size_list (size_prod (\<lambda>_. 0) size) es)")
       (auto dest: smaller)
qed

text \<open>\<^verbatim>\<open>hexdigest()\<close>: two lowercase hexadecimal digits for each byte of the digest.\<close>

definition hex_digit :: "nat \<Rightarrow> char" where
  "hex_digit d = ''0123456789abcdef'' ! (d mod 16)"

definition hexdigest :: "nat list \<Rightarrow> string" where
  "hexdigest bs = concat (map (\<lambda>b. [hex_digit (b div 16), hex_digit b]) bs)"

text \<open>
  A \<^verbatim>\<open>hashlib\<close> object digests the concatenation of the updates it was given. SHA-256
  itself is \<^verbatim>\<open>hashlib\<close>'s; it is the parameter \<open>sha\<close>, from the bytes hashed to the
  bytes of the digest.
\<close>

definition compute_directory_sha256 ::
    "(string \<Rightarrow> nat list) \<Rightarrow> (string \<Rightarrow> file_access) \<Rightarrow> dir \<Rightarrow> string" where
  "compute_directory_sha256 sha acc d = hexdigest (sha (concat (walk_updates acc [] d)))"

section \<open>What the operating system and the libraries answer\<close>

text \<open>
  Everything the engine asks of its surroundings during one operation is a field of
  \<open>env\<close>: the clock, the name \<^verbatim>\<open>mkdtemp\<close> picks, and for each system call that can
  fail whether it does and what it leaves behind. Calls are keyed by the name (or
  relative path) they act on.
\<close>

text \<open>
  A \<^verbatim>\<open>shutil.move\<close> across volumes copies the tree and then removes the source. When
  it raises, \<open>MoveFails dst src\<close> says what it left: at the destination a copy,
  whole or partial (\<open>None\<close>: nothing), and of the source the tree given (\<open>None\<close>:
  the source as it was).
\<close>

datatype move_result = MoveOk | MoveFails "dir option" "dir option"

text \<open>The sidecar record of \<^verbatim>\<open>.backup_meta.json\<close>; a key that is not written is
  \<open>None\<close>.\<close>

record meta =
  completed_at :: string
  checksum :: string
  files :: nat
  size_bytes :: nat
  move_method :: string
  description :: "string option"
  recovered :: "bool option"

text \<open>
  \<open>rmtree_error n\<close> is \<open>None\<close> when removing the directory \<open>n\<close> succeeds, and else
  the error with what the removal, which deletes entry by entry, left of the tree.
  \<open>metadata_partial\<close> and \<open>description_partial\<close> are the bytes a failed
  \<^verbatim>\<open>write_text\<close>, which creates or truncates the file before it writes, left in the
  sidecar (\<open>None\<close>: the failure came before the file was opened).
  \<open>glob_matches_self\<close> and \<open>glob_elsewhere\<close> are used only when the path of the
  backup root contains a glob metacharacter: whether the pattern that path then is
  matches the backup root itself, and the entries (directory path, name, node) of
  the other directories it matches.
\<close>

record env =
  timestamp :: string
  now_iso :: string
  mkdtemp_suffix :: "string option"
  copy_attempt :: "string \<Rightarrow> nat \<Rightarrow> attempt"
  write_description_fails :: bool
  description_partial :: "string option"
  replace_error :: "string \<Rightarrow> py_error option"
  move_outcome :: "string \<Rightarrow> move_result"
  rmtree_error :: "string \<Rightarrow> (py_error \<times> dir) option"
  metadata_fails :: "string \<Rightarrow> bool"
  metadata_partial :: "string \<Rightarrow> string option"
  file_access :: "string \<Rightarrow> string \<Rightarrow> file_access"
  sha256 :: "string \<Rightarrow> nat list"
  json_dumps :: "meta \<Rightarrow> string"
  glob_matches_self :: bool
  glob_elsewhere :: "(string \<times> string \<times> node) list"

text \<open>
  \<^verbatim>\<open>_safe_rmtree\<close> on an entry of a directory: \<^verbatim>\<open>shutil.rmtree\<close> raises on a path that
  is missing or is not a directory; on a directory it removes the tree or, when the
  handler cannot help, raises and leaves what it had not yet deleted. \<open>Inr\<close> is the
  directory after a removal, \<open>Inl\<close> the error with the directory as it is left.
\<close>

definition safe_rmtree :: "env \<Rightarrow> string \<Rightarrow> dir \<Rightarrow> (py_error \<times> dir) + dir" where
  "safe_rmtree e n d =
     (case lookup d n of
        None \<Rightarrow> Inl (OSError ENOENT, d)
      | Some (File c) \<Rightarrow> Inl (OSError ENOTDIR, d)
      | Some (Dir sub) \<Rightarrow>
          (case rmtree_error e n of
             None \<Rightarrow> Inr (remove_entry n d)
           | Some (err, rest) \<Rightarrow> Inl (err, put_entry n (Dir rest) d)))"

text \<open>\<^verbatim>\<open>try: self._safe_rmtree(p) except Exception: ...\<close> where the handler goes on.\<close>

definition rmtree_best_effort :: "env \<Rightarrow> string \<Rightarrow> dir \<Rightarrow> dir" where
  "rmtree_best_effort e n d = (case safe_rmtree e n d of Inr d' \<Rightarrow> d' | Inl (err, d') \<Rightarrow> d')"

section \<open>Listing snapshots: \<^verbatim>\<open>_get_backup_list\<close>\<close>

text \<open>
  \<^verbatim>\<open>_get_backup_list\<close> is \<^verbatim>\<open>sorted(glob.glob(str(backup_dir / "backup_*")), reverse=True)\<close>.
  \<^verbatim>\<open>glob\<close> splits the pattern into its directory part, the path of the backup root,
  and \<^verbatim>\<open>backup_*\<close>. A directory part without \<^verbatim>\<open>*\<close>, \<^verbatim>\<open>?\<close> or \<^verbatim>\<open>[\<close> is taken as it is:
  the result is the entries of the backup root, files or directories, whose name
  matches \<^verbatim>\<open>backup_*\<close>. A directory part with one of these characters is itself a
  pattern: the result is the matching entries of every directory that pattern
  matches, which may or may not include the backup root. Names are matched through
  \<^verbatim>\<open>os.path.normcase\<close>, which on Windows folds the case (of ASCII letters, in this
  model). Every result is a path; the paths are sorted as strings, in descending
  order.
\<close>

definition has_magic :: "string \<Rightarrow> bool" where
  "has_magic p = (\<exists>c \<in> set p. c = CHR ''*'' \<or> c = CHR ''?'' \<or> c = CHR ''['')"

definition ascii_lower :: "char \<Rightarrow> char" where
  "ascii_lower c =
     (if CHR ''A'' \<le> c \<and> c \<le> CHR ''Z'' then char_of (of_char c + (32 :: nat)) else c)"

definition normcase :: "config \<Rightarrow> string \<Rightarrow> string" where
  "normcase cfg n = (if is_windows cfg then map ascii_lower n else n)"

definition matches_backup :: "config \<Rightarrow> string \<Rightarrow> bool" where
  "matches_backup cfg n = prefix ''backup_'' (normcase cfg n)"

text \<open>One path of the listing: an entry of the backup root, by its name, or an entry
  of another directory, by that directory's path, its name and what it is.\<close>

datatype listed = Here string | Elsewhere string string node

fun entry_name :: "listed \<Rightarrow> string" where
  "entry_name (Here n) = n"
| "entry_name (Elsewhere d n v) = n"

definition sep :: "config \<Rightarrow> char" where
  "sep cfg = (if is_windows cfg then CHR 0x5C else CHR ''/'')"

text \<open>A directory's path as the paths of its entries start: with the separator added
  unless the path ends in it; the entries of the current directory \<^verbatim>\<open>.\<close> are named
  without a directory part.\<close>

definition dir_prefix :: "config \<Rightarrow> string \<Rightarrow> string" where
  "dir_prefix cfg d =
     (if d = ''.'' then [] else if d \<noteq> [] \<and> last d = sep cfg then d else d @ [sep cfg])"

fun path_of :: "config \<Rightarrow> listed \<Rightarrow> string" where
  "path_of cfg (Here n) = dir_prefix cfg (backup_dir cfg) @ n"
| "path_of cfg (Elsewhere d n v) = dir_prefix cfg d @ n"

definition glob_backups :: "config \<Rightarrow> env \<Rightarrow> dir \<Rightarrow> listed list" where
  "glob_backups cfg e bk =
     (if has_magic (backup_dir cfg)
      then (if glob_matches_self e
            then map Here (filter (matches_backup cfg) (map fst bk)) else [])
           @ map (\<lambda>(d, n, v). Elsewhere d n v)
               (filter (\<lambda>(d, n, v). matches_backup cfg n) (glob_elsewhere e))
      else map Here (filter (matches_backup cfg) (map fst bk)))"

definition get_backup_list :: "config \<Rightarrow> env \<Rightarrow> dir \<Rightarrow> listed list" where
  "get_backup_list cfg e bk = rev (sort_key (path_of cfg) (glob_backups cfg e bk))"

text \<open>
  The name \<^verbatim>\<open>tempfile.mkdtemp(prefix=f".{backup_name}.", dir=backup_dir)\<close> gives the
  staging directory of the snapshot \<^verbatim>\<open>backup_<timestamp>\<close>, for the random suffix
  it settles on.
\<close>

definition backup_name :: "string \<Rightarrow> string" where
  "backup_name ts = ''backup_'' @ ts"

definition staging_name :: "string \<Rightarrow> string \<Rightarrow> string" where
  "staging_name ts sfx = ''.'' @ backup_name ts @ ''.'' @ sfx"

section \<open>Retention: \<^verbatim>\<open>_cleanup_old_backups\<close>\<close>

text \<open>Python's \<^verbatim>\<open>xs[k:]\<close>, also for a negative \<open>k\<close>.\<close>

definition slice_from :: "int \<Rightarrow> 'a list \<Rightarrow> 'a list" where
  "slice_from k xs = (if 0 \<le> k then drop (nat k) xs else drop (nat (int (length xs) + k)) xs)"

text \<open>The loop over \<^verbatim>\<open>backups_to_delete\<close>: a deletion that raises is reported and the
  loop goes on. A path in another directory is removed there, not in the backup
  root.\<close>

fun delete_each :: "env \<Rightarrow> listed list \<Rightarrow> dir \<Rightarrow> dir" where
  "delete_each e [] bk = bk"
| "delete_each e (Here n # xs) bk = delete_each e xs (rmtree_best_effort e n bk)"
| "delete_each e (Elsewhere d n v # xs) bk = delete_each e xs bk"

definition cleanup_old_backups :: "config \<Rightarrow> env \<Rightarrow> dir \<Rightarrow> dir" where
  "cleanup_old_backups cfg e bk =
     (let backups = get_backup_list cfg e bk
      in if int (length backups) > max_backups cfg
         then delete_each e (slice_from (max_backups cfg) backups) bk
         else bk)"

section \<open>Creating a snapshot: \<^verbatim>\<open>create_backup\<close>\<close>

text \<open>\<^verbatim>\<open>shutil.ignore_patterns("backups", "*.pyc", "__pycache__", "*.tmp")\<close>, which
  matches names as \<^verbatim>\<open>glob\<close> does, through \<^verbatim>\<open>os.path.normcase\<close>.\<close>

definition ignored :: "config \<Rightarrow> string \<Rightarrow> bool" where
  "ignored cfg n =
     (let m = normcase cfg n
      in m = ''backups'' \<or> suffix ''.pyc'' m \<or> m = ''__pycache__'' \<or> suffix ''.tmp'' m)"

text \<open>An exception that \<^verbatim>\<open>copytree\<close> does not collect ends the walk at once: the errors
  so far end in one that is not an \<^verbatim>\<open>OSError\<close>.\<close>

definition aborted :: "py_error list \<Rightarrow> bool" where
  "aborted errs = (errs \<noteq> [] \<and> \<not> is_os_error (last errs))"

text \<open>
  \<^verbatim>\<open>shutil.copytree\<close> with \<^verbatim>\<open>copy_with_progress\<close> as its copy function: every entry
  that is not ignored is copied, a file through \<^verbatim>\<open>_safe_copy\<close> into a destination
  that has no such file yet. An \<^verbatim>\<open>OSError\<close> a file copy raises is collected and the
  walk goes on; \<^verbatim>\<open>copytree\<close> raises at its end when it has collected any. Any other
  exception leaves \<^verbatim>\<open>copytree\<close> where it is raised. The result is what is now in the
  destination, and the errors: those collected, and last the one that ended the
  walk, if one did. \<open>p\<close> is the path of the node relative to the save directory.
\<close>

fun copy_node :: "config \<Rightarrow> (string \<Rightarrow> nat \<Rightarrow> attempt) \<Rightarrow> string \<Rightarrow> node \<Rightarrow> node option \<times> py_error list"
and copy_entries :: "config \<Rightarrow> (string \<Rightarrow> nat \<Rightarrow> attempt) \<Rightarrow> string \<Rightarrow> dir \<Rightarrow> dir \<times> py_error list" where
  "copy_node cfg ca p (File c) =
     (let r = safe_copy cfg (ca p) c None
      in (map_option File (destination r),
          (case outcome r of Raised err \<Rightarrow> [err] | _ \<Rightarrow> [])))"
| "copy_node cfg ca p (Dir es) =
     (let r = copy_entries cfg ca (p @ ''/'') es in (Some (Dir (fst r)), snd r))"
| "copy_entries cfg ca pre [] = ([], [])"
| "copy_entries cfg ca pre ((n, v) # es) =
     (if ignored cfg n then copy_entries cfg ca pre es
      else (let r = copy_node cfg ca (pre @ n) v
            in if aborted (snd r)
               then ((case fst r of Some v' \<Rightarrow> [(n, v')] | None \<Rightarrow> []), snd r)
               else (let rs = copy_entries cfg ca pre es
                     in ((case fst r of Some v' \<Rightarrow> [(n, v')] | None \<Rightarrow> []) @ fst rs,
                         snd r @ snd rs))))"

text \<open>\<^verbatim>\<open>if description:\<close> holds for a string that is not empty.\<close>

definition given :: "string option \<Rightarrow> bool" where
  "given descr = (case descr of None \<Rightarrow> False | Some s \<Rightarrow> s \<noteq> [])"

text \<open>
  \<^verbatim>\<open>mkdtemp\<close> makes a directory that did not exist, named by the prefix and a random
  suffix. The suffix it settles on comes from \<open>env\<close>; a suffix that is taken, or none,
  stands for \<^verbatim>\<open>mkdtemp\<close> raising.
\<close>

definition mkdtemp :: "env \<Rightarrow> dir \<Rightarrow> string option" where
  "mkdtemp e bk =
     (case mkdtemp_suffix e of
        None \<Rightarrow> None
      | Some sfx \<Rightarrow>
          (if lookup bk (staging_name (timestamp e) sfx) = None
           then Some (staging_name (timestamp e) sfx) else None))"

text \<open>The backup root once \<^verbatim>\<open>copytree\<close> has run into the staging directory.\<close>

definition staged :: "config \<Rightarrow> env \<Rightarrow> string \<Rightarrow> dir \<Rightarrow> dir \<Rightarrow> dir" where
  "staged cfg e tmp src bk = put_entry tmp (Dir (fst (copy_entries cfg (copy_attempt e) [] src))) bk"

text \<open>Writing a file into a directory that is an entry of the backup root.\<close>

definition write_into :: "string \<Rightarrow> string \<Rightarrow> string \<Rightarrow> dir \<Rightarrow> dir" where
  "write_into dname fname bytes bk =
     (case lookup bk dname of
        Some (Dir d) \<Rightarrow> put_entry dname (Dir (put_entry fname (File bytes) d)) bk
      | _ \<Rightarrow> bk)"

text \<open>
  The publish step of \<^verbatim>\<open>create_backup\<close>: the inner \<^verbatim>\<open>try\<close> (remove a final path that
  exists, \<^verbatim>\<open>os.replace\<close>) and its handler, which falls back to \<^verbatim>\<open>shutil.move\<close> for
  \<^verbatim>\<open>errno.EXDEV\<close> and raises again otherwise. The result is the move method when the
  snapshot is published, \<open>None\<close> when an error leaves the step, and the backup root.
\<close>

definition remove_existing :: "env \<Rightarrow> string \<Rightarrow> dir \<Rightarrow> (py_error \<times> dir) + dir" where
  "remove_existing e final bk = (case lookup bk final of None \<Rightarrow> Inr bk | Some v \<Rightarrow> safe_rmtree e final bk)"

definition move_fallback :: "env \<Rightarrow> string \<Rightarrow> string \<Rightarrow> string \<Rightarrow> dir \<Rightarrow> string option \<times> dir" where
  "move_fallback e method tmp final bk =
     (case move_outcome e tmp of
        MoveOk \<Rightarrow> (Some method, rename_entry tmp final bk)
      | MoveFails at_dst of_src \<Rightarrow>
          (None,
           (case of_src of None \<Rightarrow> (\<lambda>b. b) | Some s \<Rightarrow> put_entry tmp (Dir s))
             ((case at_dst of None \<Rightarrow> (\<lambda>b. b) | Some d \<Rightarrow> put_entry final (Dir d)) bk)))"

definition publish :: "env \<Rightarrow> string \<Rightarrow> string \<Rightarrow> dir \<Rightarrow> string option \<times> dir" where
  "publish e tmp final bk =
     (case remove_existing e final bk of
        Inl (err, bk') \<Rightarrow>
          (if err = OSError EXDEV
           then (case remove_existing e final bk' of
                   Inl (err2, bk'') \<Rightarrow> (None, bk'')
                 | Inr bk2 \<Rightarrow> move_fallback e ''copied'' tmp final bk2)
           else (None, bk'))
      | Inr bk1 \<Rightarrow>
          (case replace_error e tmp of
             None \<Rightarrow> (Some ''atomic'', rename_entry tmp final bk1)
           | Some err \<Rightarrow>
               (if err = OSError EXDEV
                then (case remove_existing e final bk1 of
                        Inl (err2, bk'') \<Rightarrow> (None, bk'')
                      | Inr bk2 \<Rightarrow> move_fallback e ''copied'' tmp final bk2)
                else (None, bk1))))"

text \<open>
  The metadata block: checksum, size and file count of the published directory, then
  the sidecar written into it. Whatever raises inside is caught and reported; when
  it is the write that raises, the sidecar may be there, empty or partial.
\<close>

definition write_metadata :: "env \<Rightarrow> string \<Rightarrow> string \<Rightarrow> string option \<Rightarrow> bool option \<Rightarrow> dir \<Rightarrow> dir" where
  "write_metadata e final method descr rec bk =
     (case lookup bk final of
        Some (Dir d) \<Rightarrow>
          (if metadata_fails e final
           then (case metadata_partial e final of
                   None \<Rightarrow> bk
                 | Some bytes \<Rightarrow> write_into final ''.backup_meta.json'' bytes bk)
           else write_into final ''.backup_meta.json''
                  (json_dumps e
                     \<lparr>completed_at = now_iso e,
                      checksum = compute_directory_sha256 (sha256 e) (file_access e final) d,
                      files = count_files_in d,
                      size_bytes = get_directory_size d,
                      move_method = method,
                      description = descr,
                      recovered = rec\<rparr>) bk)
      | _ \<Rightarrow> bk)"

text \<open>The \<^verbatim>\<open>finally\<close> block: a staging directory that is still there is removed, and a
  failure to remove it is passed over.\<close>

definition cleanup_tmp :: "env \<Rightarrow> string \<Rightarrow> dir \<Rightarrow> dir" where
  "cleanup_tmp e tmp bk = (case lookup bk tmp of None \<Rightarrow> bk | Some v \<Rightarrow> rmtree_best_effort e tmp bk)"

text \<open>The description sidecar, written into the staging directory before the publish
  step, and what a write that raises leaves of it.\<close>

definition with_description :: "string option \<Rightarrow> string \<Rightarrow> dir \<Rightarrow> dir" where
  "with_description descr tmp bk =
     (case descr of
        None \<Rightarrow> bk
      | Some text \<Rightarrow> if given descr then write_into tmp ''.backup_description'' text bk else bk)"

definition failed_description :: "env \<Rightarrow> string \<Rightarrow> dir \<Rightarrow> dir" where
  "failed_description e tmp bk =
     (case description_partial e of
        None \<Rightarrow> bk
      | Some bytes \<Rightarrow> write_into tmp ''.backup_description'' bytes bk)"

text \<open>
  \<^verbatim>\<open>create_backup(description)\<close> on the save directory \<open>src\<close> and the backup root
  \<open>bk\<close>: the name of the snapshot it returns (\<open>None\<close> for Python's \<^verbatim>\<open>None\<close>) and the
  backup root afterwards. The save directory is only read.
\<close>

definition create_backup :: "config \<Rightarrow> env \<Rightarrow> string option \<Rightarrow> dir \<Rightarrow> dir \<Rightarrow> string option \<times> dir" where
  "create_backup cfg e descr src bk =
     (if count_files_in src = 0 then (None, bk)
      else
        (case mkdtemp e bk of
           None \<Rightarrow> (None, bk)
         | Some tmp \<Rightarrow>
             (if snd (copy_entries cfg (copy_attempt e) [] src) \<noteq> []
              then (None, cleanup_tmp e tmp (staged cfg e tmp src bk))
              else if given descr \<and> write_description_fails e
              then (None, cleanup_tmp e tmp (failed_description e tmp (staged cfg e tmp src bk)))
              else
                (case publish e tmp (backup_name (timestamp e))
                        (with_description descr tmp (staged cfg e tmp src bk)) of
                   (None, bk4) \<Rightarrow> (None, cleanup_tmp e tmp bk4)
                 | (Some method, bk4) \<Rightarrow>
                     (Some (backup_name (timestamp e)),
                      cleanup_old_backups cfg e
                        (write_metadata e (backup_name (timestamp e)) method
                           (if given descr then descr else None) None bk4))))))"

text \<open>A sequence of calls, each with its own surroundings, description and state of
  the save directory: what the calls return, in order, and the backup root at the end.\<close>

fun create_backups :: "config \<Rightarrow> (env \<times> string option \<times> dir) list \<Rightarrow> dir \<Rightarrow> string option list \<times> dir" where
  "create_backups cfg [] bk = ([], bk)"
| "create_backups cfg ((e, descr, src) # cs) bk =
     (let r = create_backup cfg e descr src bk; rs = create_backups cfg cs (snd r)
      in (fst r # fst rs, snd rs))"

text \<open>The names a listing of the backup root shows when its path is no pattern, and
  the invariant that every one of them is a directory.\<close>

definition snapshot_names :: "config \<Rightarrow> dir \<Rightarrow> string list" where
  "snapshot_names cfg bk = rev (sort (filter (matches_backup cfg) (map fst bk)))"

definition snapshots_are_dirs :: "config \<Rightarrow> dir \<Rightarrow> bool" where
  "snapshots_are_dirs cfg bk = (\<forall>(n, v) \<in> set bk. matches_backup cfg n \<longrightarrow> (\<exists>d. v = Dir d))"

section \<open>Recovery at start-up: \<^verbatim>\<open>_recover_or_cleanup_tmp_dirs\<close>\<close>

text \<open>\<^verbatim>\<open>name[1:].split('.', 1)[0]\<close>\<close>

definition final_base :: "string \<Rightarrow> string" where
  "final_base name = takeWhile (\<lambda>c. c \<noteq> CHR ''.'') (tl name)"

text \<open>
  The body of the loop for the entry \<open>name\<close>; any exception inside it is caught by the
  outer handler and the loop goes on with the next entry. Of what \<^verbatim>\<open>os.replace\<close>
  raises, only an \<^verbatim>\<open>OSError\<close> reaches the inner handler, which removes the staging
  directory.
\<close>

definition recover_entry :: "env \<Rightarrow> string \<Rightarrow> dir \<Rightarrow> dir" where
  "recover_entry e name bk =
     (case lookup bk name of
        Some (Dir d) \<Rightarrow>
          (if \<not> prefix ''.backup_'' name then bk
           else if count_files_in d = 0 then rmtree_best_effort e name bk
           else if lookup bk (final_base name) \<noteq> None then rmtree_best_effort e name bk
           else
             (case replace_error e name of
                None \<Rightarrow>
                  write_metadata e (final_base name) ''recovered_atomic'' None (Some True)
                    (rename_entry name (final_base name) bk)
              | Some err \<Rightarrow>
                  (if err = OSError EXDEV
                   then (case move_fallback e ''recovered_copied'' name (final_base name) bk of
                           (Some method, bk2) \<Rightarrow>
                             write_metadata e (final_base name) method None (Some True) bk2
                         | (None, bk2) \<Rightarrow> rmtree_best_effort e name bk2)
                   else if is_os_error err then rmtree_best_effort e name bk
                   else bk)))
      | _ \<Rightarrow> bk)"

text \<open>\<^verbatim>\<open>for entry in self.backup_dir.iterdir()\<close>: the entries as enumerated when the
  scan starts.\<close>

definition recover_or_cleanup_tmp_dirs :: "env \<Rightarrow> dir \<Rightarrow> dir" where
  "recover_or_cleanup_tmp_dirs e bk = fold (recover_entry e) (map fst bk) bk"

section \<open>Restoring a snapshot: \<^verbatim>\<open>restore_backup\<close>\<close>

text \<open>
  Where the backup root is, seen from the save directory: outside it (then restore
  only reads it), or inside it as the entry of the given name.
\<close>

datatype backup_place = Outside dir | Inside string

definition backup_root :: "backup_place \<Rightarrow> dir \<Rightarrow> dir option" where
  "backup_root place sv =
     (case place of
        Outside bk \<Rightarrow> Some bk
      | Inside n \<Rightarrow> (case lookup sv n of Some (Dir bk) \<Rightarrow> Some bk | _ \<Rightarrow> None))"

text \<open>What \<^verbatim>\<open>subprocess.run([...], shell=True, check=False)\<close> does for an entry: it
  raises, or it returns and leaves of the entry what is given (\<open>None\<close>: nothing).\<close>

datatype shell_result = ShellRaises | ShellLeaves "node option"

text \<open>What is typed at the prompt for a backup number.\<close>

datatype typed = Quit | Number int | Unparsable

text \<open>
  What restore asks of its surroundings: what is typed at its two prompts; whether
  removing an entry of the save directory raises, and what a directory's removal
  then leaves of it; what the shell fallback does; whether copying an entry of the
  snapshot raises, and what is then at its destination (\<open>None\<close>: what was there);
  and which entries of the save directory are the program's own file
  \<^verbatim>\<open>Path(__file__)\<close>.
\<close>

record restore_env =
  typed_choice :: typed
  confirmed :: bool
  remove_error :: "string \<Rightarrow> (py_error \<times> dir) option"
  shell_fallback :: "string \<Rightarrow> shell_result"
  copy_error :: "string \<Rightarrow> node option option"
  is_script :: "string \<Rightarrow> bool"

text \<open>\<^verbatim>\<open>except PermissionError\<close>: an \<^verbatim>\<open>OSError\<close> with \<^verbatim>\<open>EPERM\<close> or \<^verbatim>\<open>EACCES\<close> is one.\<close>

definition is_permission_error :: "py_error \<Rightarrow> bool" where
  "is_permission_error err = (err = PermissionError \<or> err = OSError 1 \<or> err = OSError 13)"

text \<open>
  The snapshot a restore works on: the entry of the listing at the number given, or
  at the number typed when none is given. \<open>None\<close> is \<^verbatim>\<open>return False\<close>.
\<close>

definition resolve_backup :: "config \<Rightarrow> env \<Rightarrow> restore_env \<Rightarrow> int option \<Rightarrow> dir \<Rightarrow> listed option" where
  "resolve_backup cfg e r choice bk =
     (let backups = get_backup_list cfg e bk
      in if backups = [] then None
         else
           (case choice of
              None \<Rightarrow>
                (case typed_choice r of
                   Quit \<Rightarrow> None
                 | Unparsable \<Rightarrow> None
                 | Number i \<Rightarrow>
                     if i - 1 < 0 \<or> i - 1 \<ge> int (length backups) then None
                     else Some (backups ! nat (i - 1)))
            | Some c \<Rightarrow>
                if c < 1 \<or> c > int (length backups) then None
                else Some (backups ! nat (c - 1))))"

text \<open>What is left of an entry whose removal raised.\<close>

definition left_of :: "node \<Rightarrow> dir \<Rightarrow> node" where
  "left_of v rest = (case v of File c \<Rightarrow> File c | Dir d \<Rightarrow> Dir rest)"

definition leave :: "string \<Rightarrow> node option \<Rightarrow> dir \<Rightarrow> dir" where
  "leave n v sv = (case v of None \<Rightarrow> remove_entry n sv | Some w \<Rightarrow> put_entry n w sv)"

text \<open>
  The delete phase, \<^verbatim>\<open>for item in self.save_dir.iterdir()\<close>, over the names enumerated
  at its start. \<open>False\<close> is \<^verbatim>\<open>return False\<close>, from the inner handler or through the
  outer one.
\<close>

fun delete_items :: "restore_env \<Rightarrow> string list \<Rightarrow> dir \<Rightarrow> bool \<times> dir" where
  "delete_items r [] sv = (True, sv)"
| "delete_items r (n # ns) sv =
     (if n \<noteq> ''backups'' \<and> \<not> is_script r n
      then (case lookup sv n of
              None \<Rightarrow> (False, sv)
            | Some v \<Rightarrow>
                (case remove_error r n of
                   None \<Rightarrow> delete_items r ns (remove_entry n sv)
                 | Some (err, rest) \<Rightarrow>
                     (if is_permission_error err
                      then (case shell_fallback r n of
                              ShellRaises \<Rightarrow> (False, put_entry n (left_of v rest) sv)
                            | ShellLeaves w \<Rightarrow> delete_items r ns (leave n w sv))
                      else (False, put_entry n (left_of v rest) sv))))
      else delete_items r ns sv)"

text \<open>
  The copy phase, \<^verbatim>\<open>for item in backup_path_obj.iterdir()\<close>. \<^verbatim>\<open>shutil.copytree\<close> raises
  when the destination exists; \<^verbatim>\<open>shutil.copy2\<close> onto a directory copies into it.
  \<^verbatim>\<open>show_progress\<close> divides by the number of files \<open>cnt\<close> of the snapshot.
\<close>

fun copy_items :: "restore_env \<Rightarrow> nat \<Rightarrow> dir \<Rightarrow> dir \<Rightarrow> bool \<times> dir" where
  "copy_items r cnt [] sv = (True, sv)"
| "copy_items r cnt ((n, v) # es) sv =
     (if n = ''.backup_description'' then copy_items r cnt es sv
      else
        (case v of
           Dir d \<Rightarrow>
             (if lookup sv n \<noteq> None then (False, sv)
              else
                (case copy_error r n of
                   Some w \<Rightarrow> (False, (case w of None \<Rightarrow> sv | Some x \<Rightarrow> put_entry n x sv))
                 | None \<Rightarrow>
                     if cnt = 0 then (False, put_entry n (Dir d) sv)
                     else copy_items r cnt es (put_entry n (Dir d) sv)))
         | File c \<Rightarrow>
             (case copy_error r n of
                Some w \<Rightarrow> (False, (case w of None \<Rightarrow> sv | Some x \<Rightarrow> put_entry n x sv))
              | None \<Rightarrow>
                  (let sv' = (case lookup sv n of
                                Some (Dir d') \<Rightarrow> put_entry n (Dir (put_entry n (File c) d')) sv
                              | _ \<Rightarrow> put_entry n (File c) sv)
                   in if cnt = 0 then (False, sv') else copy_items r cnt es sv'))))"

text \<open>What the path a restore resolved holds once the delete phase is over. An entry
  of another directory is taken to lie outside the save directory.\<close>

definition snapshot_at :: "backup_place \<Rightarrow> dir \<Rightarrow> listed \<Rightarrow> node option" where
  "snapshot_at place sv x =
     (case x of
        Here n \<Rightarrow> (case backup_root place sv of None \<Rightarrow> None | Some bk \<Rightarrow> lookup bk n)
      | Elsewhere d n v \<Rightarrow> Some v)"

text \<open>
  \<^verbatim>\<open>restore_backup(backup_choice, skip_confirmation)\<close> on the save directory \<open>sv\<close>: what
  it returns and the save directory afterwards. A path that is no directory makes
  \<^verbatim>\<open>iterdir\<close> raise, after the delete phase.
\<close>

definition restore_backup ::
    "config \<Rightarrow> env \<Rightarrow> restore_env \<Rightarrow> backup_place \<Rightarrow> int option \<Rightarrow> bool \<Rightarrow> dir \<Rightarrow> bool \<times> dir" where
  "restore_backup cfg e r place choice skip_confirmation sv =
     (case backup_root place sv of
        None \<Rightarrow> (False, sv)
      | Some bk \<Rightarrow>
          (case resolve_backup cfg e r choice bk of
             None \<Rightarrow> (False, sv)
           | Some x \<Rightarrow>
               (if \<not> skip_confirmation \<and> \<not> confirmed r then (False, sv)
                else
                  (case delete_items r (map fst sv) sv of
                     (False, sv1) \<Rightarrow> (False, sv1)
                   | (True, sv1) \<Rightarrow>
                       (case snapshot_at place sv1 x of
                          Some (Dir snap) \<Rightarrow> copy_items r (count_files_in snap) snap sv1
                        | _ \<Rightarrow> (False, sv1))))))"

section \<open>Example inputs\<close>

text \<open>
  Concrete configurations, answers of the surroundings and directories on which the
  definitions above are evaluated. \<open>calm_env\<close> is a run in which no call fails; its
  stand-ins for SHA-256 and \<^verbatim>\<open>json.dumps\<close> only have to be functions, and
  \<open>example_config\<close> takes every product of its delay to be a \<^verbatim>\<open>float\<close>.
\<close>

definition example_config :: config where
  "example_config =
     \<lparr>backup_dir = ''/srv/backups'', max_backups = 2, skip_locked_files = False, retries = 3,
      retry_delay = Finite (1 / 2), is_windows = False, round_double = Finite,
      sleep_overflows = (\<lambda>r. False)\<rparr>"

definition calm_env :: "string \<Rightarrow> env" where
  "calm_env ts =
     \<lparr>timestamp = ts, now_iso = ts, mkdtemp_suffix = Some ''k3x9'',
      copy_attempt = (\<lambda>p a. CopyOk), write_description_fails = False,
      description_partial = None,
      replace_error = (\<lambda>n. None), move_outcome = (\<lambda>n. MoveOk),
      rmtree_error = (\<lambda>n. None), metadata_fails = (\<lambda>n. False),
      metadata_partial = (\<lambda>n. None),
      file_access = (\<lambda>d p. ReadOk), sha256 = (\<lambda>bs. []),
      json_dumps = (\<lambda>m. move_method m),
      glob_matches_self = False, glob_elsewhere = []\<rparr>"


definition example_save :: dir where
  "example_save = [(''a.txt'', File ''abc''), (''b'', Dir [(''c.txt'', File [])])]"

definition example_root :: dir where
  "example_root =
     [(''backup_20240101_120000'', Dir [(''a.txt'', File ''abc'')]),
      (''.backup_20240102_120000.q7'', Dir [(''a.txt'', File ''ab'')])]"

definition example_calls :: "(env \<times> string option \<times> dir) list" where
  "example_calls =
     [(calm_env ''20240103_120000'', None, example_save),
      (calm_env ''20240103_120500'', Some ''before boss'', example_save),
      (calm_env ''20240104_090000'', None, example_save)]"

definition snapshot_plain :: dir where
  "snapshot_plain =
     [(''a.txt'', File ''abc''), (''b'', Dir [(''c.txt'', File [])]),
      (''.backup_meta.json'', File ''atomic'')]"

definition snapshot_described :: dir where
  "snapshot_described =
     [(''a.txt'', File ''abc''), (''b'', Dir [(''c.txt'', File [])]),
      (''.backup_description'', File ''before boss''),
      (''.backup_meta.json'', File ''atomic'')]"






definition calm_restore :: restore_env where
  "calm_restore =
     \<lparr>typed_choice = Quit, confirmed = True, remove_error = (\<lambda>n. None),
      shell_fallback = (\<lambda>n. ShellLeaves None), copy_error = (\<lambda>n. None),
      is_script = (\<lambda>n. False)\<rparr>"

text \<open>A run in which \<^verbatim>\<open>os.replace\<close> meets another volume and \<^verbatim>\<open>shutil.move\<close> raises
  after it has copied part of the tree to the final path.\<close>

definition cross_device_env :: "string \<Rightarrow> env" where
  "cross_device_env ts =
     (calm_env ts)\<lparr>replace_error := (\<lambda>n. Some (OSError EXDEV)),
                   move_outcome := (\<lambda>n. MoveFails (Some [(''a.txt'', File ''ab'')]) None)\<rparr>"

definition one_kept_config :: config where
  "one_kept_config = example_config\<lparr>max_backups := 1\<rparr>"

text \<open>A backup root whose path is a pattern to \<^verbatim>\<open>glob\<close>.\<close>

definition pattern_config :: config where
  "pattern_config = example_config\<lparr>backup_dir := ''/srv/[saves]/backups''\<rparr>"

text \<open>A run in which removing a directory raises, with one file of it left.\<close>

definition stuck_env :: "string \<Rightarrow> env" where
  "stuck_env ts =
     (calm_env ts)\<lparr>rmtree_error := (\<lambda>n. Some (PermissionError, [(''a.txt'', File ''abc'')]))\<rparr>"

definition same_second_calls :: "(env \<times> string option \<times> dir) list" where
  "same_second_calls =
     [(calm_env ''20240103_120000'', None, example_save),
      (calm_env ''20240103_120000'', None, example_save)]"

definition backwards_calls :: "(env \<times> string option \<times> dir) list" where
  "backwards_calls =
     [(calm_env ''20240103_120500'', None, example_save),
      (calm_env ''20240103_120000'', None, example_save)]"

definition stuck_calls :: "(env \<times> string option \<times> dir) list" where
  "stuck_calls =
     [(calm_env ''20240103_120000'', None, example_save),
      (stuck_env ''20240103_120500'', None, example_save)]"

definition root_with_file :: dir where
  "root_with_file =
     [(''backup_20230101_notes'', File ''x''),
      (''backup_20240101_120000'', Dir []),
      (''backup_20240102_120000'', Dir [])]"

section \<open>Properties\<close>

subsection \<open>Entries of a directory\<close>

lemma lookup_remove_entry: "lookup (remove_entry n d) m = (if m = n then None else lookup d m)"
  by (induction d) (auto simp: lookup_def remove_entry_def)

lemma lookup_put_entry: "lookup (put_entry n v d) m = (if m = n then Some v else lookup d m)"
  by (induction d) (auto simp: lookup_def)


lemma lookup_None_iff: "lookup d n = None \<longleftrightarrow> n \<notin> fst ` set d"
  by (simp add: lookup_def map_of_eq_None_iff)

lemma lookup_in_set: "lookup d n = Some v \<Longrightarrow> (n, v) \<in> set d"
  by (simp add: lookup_def map_of_SomeD)

lemma names_remove_entry: "map fst (remove_entry n d) = filter (\<lambda>m. m \<noteq> n) (map fst d)"
  by (induction d) (auto simp: remove_entry_def)

lemma names_put_entry:
  "map fst (put_entry n v d) = (if n \<in> fst ` set d then map fst d else map fst d @ [n])"
  by (induction d) (auto simp: rev_image_eqI)

lemma set_put_entry:
  "set (put_entry n v d) \<subseteq> insert (n, v) (set d)"
  by (induction d) (auto split: if_splits)

lemma write_into_names: "map fst (write_into dname fname bytes bk) = map fst bk"
proof (cases "lookup bk dname")
  case None
  then show ?thesis by (simp add: write_into_def)
next
  case (Some v)
  show ?thesis
  proof (cases v)
    case (File c)
    then show ?thesis using Some by (simp add: write_into_def)
  next
    case (Dir d)
    have "dname \<in> fst ` set bk" using Some lookup_None_iff[of bk dname] by auto
    then show ?thesis using Some Dir by (simp add: write_into_def names_put_entry)
  qed
qed

lemma lookup_write_into:
  "lookup (write_into dname fname bytes bk) m =
     (if m = dname then (case lookup bk dname of
                           Some (Dir d) \<Rightarrow> Some (Dir (put_entry fname (File bytes) d))
                         | v \<Rightarrow> v)
      else lookup bk m)"
  by (auto simp: write_into_def lookup_put_entry split: option.splits node.splits)

subsection \<open>Listing\<close>

lemma normcase_dot: "prefix ''.'' n \<Longrightarrow> prefix ''.'' (normcase cfg n)"
  by (auto simp: normcase_def prefix_def ascii_lower_def)

lemma hidden_not_matches: "prefix ''.'' n \<Longrightarrow> \<not> matches_backup cfg n"
  using normcase_dot[of n cfg] by (auto simp: matches_backup_def prefix_def)

lemma staging_name_hidden: "prefix ''.'' (staging_name ts sfx)"
  by (simp add: staging_name_def)

lemma normcase_backup_name: "normcase cfg (backup_name ts) = ''backup_'' @ normcase cfg ts"
  by (simp add: normcase_def backup_name_def ascii_lower_def)

lemma backup_name_matches: "matches_backup cfg (backup_name ts)"
  by (simp add: matches_backup_def normcase_backup_name)

lemma insort_key_cong_order:
  assumes "\<And>a b. f a \<le> f b \<longleftrightarrow> g a \<le> g b"
  shows "insort_key f x ys = insort_key g x ys"
  using assms by (induction ys) simp_all

lemma sort_key_cong_order:
  assumes "\<And>a b. f a \<le> f b \<longleftrightarrow> g a \<le> g b"
  shows "sort_key f xs = sort_key g xs"
proof (induction xs)
  case Nil
  show ?case by simp
next
  case (Cons x xs)
  show ?case using Cons insort_key_cong_order[of f g, OF assms] by simp
qed

lemma append_le_iff: "(p @ a \<le> p @ b) \<longleftrightarrow> (a \<le> (b :: string))"
  by (induction p) (simp_all add: less_eq_list_code(3))

lemma insort_key_map: "insort_key f (g x) (map g ys) = map g (insort_key (\<lambda>y. f (g y)) x ys)"
  by (induction ys) simp_all

lemma sort_key_map: "sort_key f (map g xs) = map g (sort_key (\<lambda>y. f (g y)) xs)"
  by (induction xs) (simp_all add: insort_key_map)

lemma get_backup_list_plain:
  assumes "\<not> has_magic (backup_dir cfg)"
  shows "get_backup_list cfg e bk = map Here (snapshot_names cfg bk)"
proof -
  have "sort_key (\<lambda>y. path_of cfg (Here y)) xs = sort_key (\<lambda>y. y) xs" for xs
    by (rule sort_key_cong_order) (simp add: append_le_iff)
  then show ?thesis
    using assms by (simp add: get_backup_list_def glob_backups_def snapshot_names_def sort_key_map rev_map)
qed

lemma snapshot_names_set: "set (snapshot_names cfg bk) = {n \<in> fst ` set bk. matches_backup cfg n}"
  by (auto simp: snapshot_names_def)

lemma glob_backups_names:
  "x \<in> set (glob_backups cfg e bk) \<Longrightarrow> matches_backup cfg (entry_name x)"
  by (auto simp: glob_backups_def split: if_splits)

lemma get_backup_list_names:
  "x \<in> set (get_backup_list cfg e bk) \<Longrightarrow> matches_backup cfg (entry_name x)"
  using glob_backups_names[of x cfg e bk] by (simp add: get_backup_list_def)

lemma filter_names_remove_hidden:
  "\<not> matches_backup cfg s \<Longrightarrow>
     filter (matches_backup cfg) (map fst (remove_entry s bk)) = filter (matches_backup cfg) (map fst bk)"
  by (induction bk) (auto simp: remove_entry_def)

lemma filter_names_put_hidden:
  "\<not> matches_backup cfg s \<Longrightarrow>
     filter (matches_backup cfg) (map fst (put_entry s v bk)) = filter (matches_backup cfg) (map fst bk)"
  by (induction bk) auto

lemma get_backup_list_remove_hidden:
  "\<not> matches_backup cfg s \<Longrightarrow> get_backup_list cfg e (remove_entry s bk) = get_backup_list cfg e bk"
  by (simp add: get_backup_list_def glob_backups_def filter_names_remove_hidden)

lemma get_backup_list_put_hidden:
  "\<not> matches_backup cfg s \<Longrightarrow> get_backup_list cfg e (put_entry s v bk) = get_backup_list cfg e bk"
  by (simp add: get_backup_list_def glob_backups_def filter_names_put_hidden)

lemma snapshot_names_remove_hidden:
  "\<not> matches_backup cfg s \<Longrightarrow> snapshot_names cfg (remove_entry s bk) = snapshot_names cfg bk"
  by (simp add: snapshot_names_def filter_names_remove_hidden)

lemma snapshot_names_put_hidden:
  "\<not> matches_backup cfg s \<Longrightarrow> snapshot_names cfg (put_entry s v bk) = snapshot_names cfg bk"
  by (simp add: snapshot_names_def filter_names_put_hidden)

lemma resolve_backup_listed:
  "resolve_backup cfg e r choice bk = Some x \<Longrightarrow> x \<in> set (get_backup_list cfg e bk)"
  by (auto simp: resolve_backup_def Let_def split: if_splits option.splits typed.splits)

subsection \<open>The retry loop\<close>

lemma win_read_fst: "fst (win_read_file_to_path cfg w d) = fst (win_read_file_to_path cfg w d')"
  by (cases w) simp_all





lemma safe_copy_outcome_indep:
  "outcome (safe_copy_loop cfg att src dst xs) = outcome (safe_copy_loop cfg att src' dst' xs)"
proof (induction xs arbitrary: dst dst')
  case Nil
  show ?case by simp
next
  case (Cons a rest)
  show ?case
  proof (cases "att a")
    case CopyOk
    then show ?thesis by simp
  next
    case (CopyFails err written w)
    have f: "fst (win_read_file_to_path cfg w (overwritten dst written))
             = fst (win_read_file_to_path cfg w (overwritten dst' written))"
      by (rule win_read_fst)
    obtain b1 d1 where w1: "win_read_file_to_path cfg w (overwritten dst written) = (b1, d1)"
      by (cases "win_read_file_to_path cfg w (overwritten dst written)")
    obtain b2 d2 where w2: "win_read_file_to_path cfg w (overwritten dst' written) = (b2, d2)"
      by (cases "win_read_file_to_path cfg w (overwritten dst' written)")
    have b: "b1 = b2" using f w1 w2 by simp
    show ?thesis
      using CopyFails w1 w2 b Cons.IH[of d1 d2]
      by (cases b2) (simp_all add: Let_def split: option.splits)
  qed
qed

subsection \<open>What a raising copy does to the snapshot operation\<close>



lemma staging_not_matches: "\<not> matches_backup cfg (staging_name ts sfx)"
  by (rule hidden_not_matches) (rule staging_name_hidden)

lemma mkdtemp_name: "mkdtemp e bk = Some tmp \<Longrightarrow> \<exists>sfx. tmp = staging_name (timestamp e) sfx"
  by (auto simp: mkdtemp_def split: option.splits if_splits)

lemma mkdtemp_hidden: "mkdtemp e bk = Some tmp \<Longrightarrow> \<not> matches_backup cfg tmp"
  using mkdtemp_name[of e bk tmp] staging_not_matches by auto




lemma get_backup_list_staged:
  "\<not> matches_backup cfg tmp \<Longrightarrow>
     get_backup_list cfg e' (staged cfg2 e tmp src bk) = get_backup_list cfg e' bk"
  by (simp add: staged_def get_backup_list_put_hidden)







subsection \<open>Publishing\<close>

lemma remove_existing_absent:
  "remove_existing e final bk = Inr bk1 \<Longrightarrow> lookup bk1 final = None"
  by (auto simp: remove_existing_def safe_rmtree_def lookup_remove_entry split: option.splits node.splits)


lemma remove_existing_again:
  "lookup bk final = None \<Longrightarrow> remove_existing e final bk = Inr bk"
  by (simp add: remove_existing_def)

lemma publish_after_removal:
  assumes "remove_existing e final bk = Inr bk1"
  shows "publish e tmp final bk =
     (case replace_error e tmp of
        None \<Rightarrow> (Some ''atomic'', rename_entry tmp final bk1)
      | Some err \<Rightarrow>
          if err = OSError EXDEV then move_fallback e ''copied'' tmp final bk1 else (None, bk1))"
  using assms remove_existing_again[OF remove_existing_absent[OF assms], of e]
  by (simp add: publish_def split: option.splits)


lemma write_metadata_failed:
  "metadata_fails e final \<Longrightarrow>
     write_metadata e final method descr rec bk =
       (case metadata_partial e final of
          None \<Rightarrow> bk
        | Some bytes \<Rightarrow> write_into final ''.backup_meta.json'' bytes bk)"
  by (auto simp: write_metadata_def write_into_def split: option.splits node.splits)

subsection \<open>Evaluating the definitions on concrete inputs\<close>

lemma safe_copy_first_ok:
  "att 1 = CopyOk \<Longrightarrow>
     safe_copy cfg att src dst = \<lparr>outcome = Copied, destination = Some src, events = [Attempt 1]\<rparr>"
proof -
  assume a: "att 1 = CopyOk"
  have "1 < nat (max 1 (retries cfg)) + 1" by simp
  then have "[1 ..< nat (max 1 (retries cfg)) + 1] = 1 # [Suc 1 ..< nat (max 1 (retries cfg)) + 1]"
    by (rule upt_conv_Cons)
  then show ?thesis using a by (simp add: safe_copy_def)
qed

lemma example_config_fields:
  "backup_dir example_config = ''/srv/backups''"
  "max_backups example_config = 2"
  "skip_locked_files example_config = False"
  "retries example_config = 3"
  "retry_delay example_config = Finite (1 / 2)"
  "is_windows example_config = False"
  by (simp_all add: example_config_def)

lemmas eval_defs = mkdtemp_def calm_env_def staging_name_def backup_name_def lookup_def
  publish_def remove_existing_def rename_entry_def remove_entry_def with_description_def
  given_def write_into_def write_metadata_def compute_directory_sha256_def hexdigest_def
  cleanup_old_backups_def get_backup_list_plain has_magic_def snapshot_names_def
  matches_backup_def normcase_def example_config_fields
  slice_from_def rmtree_best_effort_def safe_rmtree_def example_save_def example_root_def
  ignored_def suffix_to_prefix safe_copy_first_ok create_backup_def staged_def
  snapshot_plain_def snapshot_described_def move_fallback_def cleanup_tmp_def aborted_def
  failed_description_def

text \<open>
  C7 (nothing to back up). When the save directory holds no file, \<^verbatim>\<open>create_backup\<close>
  returns \<^verbatim>\<open>None\<close> and the backup root is exactly as before: no staging directory,
  no snapshot, the same listing.
\<close>

theorem create_backup_no_files:
  assumes "count_files_in src = 0"
  shows "create_backup cfg e descr src bk = (None, bk)"
  using assms by (simp add: create_backup_def)

theorem create_backup_no_files_witness:
  "count_files_in [(''saves'', Dir [])] = 0
  \<and> create_backup example_config (calm_env ''20240103_120000'') None [(''saves'', Dir [])] example_root = (None, example_root)"
proof -
  have h: "count_files_in [(''saves'', Dir [])] = 0" by simp
  show ?thesis using h create_backup_no_files[OF h] by simp
qed



subsection \<open>What the listing shows\<close>

lemma restore_backup_resolved:
  assumes "fst (restore_backup cfg e r place choice skip sv)"
  shows "\<exists>bk x snap. backup_root place sv = Some bk
     \<and> resolve_backup cfg e r choice bk = Some x
     \<and> x \<in> set (get_backup_list cfg e bk)
     \<and> snapshot_at place (snd (delete_items r (map fst sv) sv)) x = Some (Dir snap)"
proof (cases "backup_root place sv")
  case None
  then show ?thesis using assms by (simp add: restore_backup_def)
next
  case (Some bk)
  show ?thesis
  proof (cases "resolve_backup cfg e r choice bk")
    case None
    then show ?thesis using assms Some by (simp add: restore_backup_def)
  next
    case x: (Some x)
    have l: "x \<in> set (get_backup_list cfg e bk)" using x by (rule resolve_backup_listed)
    obtain ok sv1 where d: "delete_items r (map fst sv) sv = (ok, sv1)"
      by (cases "delete_items r (map fst sv) sv")
    have "\<exists>snap. snapshot_at place sv1 x = Some (Dir snap)"
      using assms Some x d
      by (auto simp: restore_backup_def split: if_splits bool.splits option.splits node.splits)
    then show ?thesis using Some x l d by simp
  qed
qed

text \<open>
  C1 (what the listing shows). Whatever the backup root holds, every path the
  listing returns has a name that matches \<^verbatim>\<open>backup_*\<close>, so none starts with a dot:
  the staging name \<^verbatim>\<open>mkdtemp\<close> makes for any timestamp and suffix is never listed, and
  creating, filling or removing an entry whose name starts with a dot (as the
  staging directory of \<^verbatim>\<open>create_backup\<close> is, whatever it holds so far) leaves the listing
  as it was. A restore works on a path of the listing: the path it resolves is
  listed, and it returns \<^verbatim>\<open>True\<close> only when it resolved one that is a directory.
\<close>

theorem staging_never_listed:
  "(\<forall>x \<in> set (get_backup_list cfg e bk).
       matches_backup cfg (entry_name x) \<and> \<not> prefix ''.'' (entry_name x))
   \<and> Here (staging_name ts sfx) \<notin> set (get_backup_list cfg e bk)
   \<and> (prefix ''.'' s \<longrightarrow>
        get_backup_list cfg e (put_entry s v bk) = get_backup_list cfg e bk
        \<and> get_backup_list cfg e (remove_entry s bk) = get_backup_list cfg e bk)
   \<and> (mkdtemp e2 bk = Some tmp \<longrightarrow>
        get_backup_list cfg e (staged cfg2 e2 tmp src bk) = get_backup_list cfg e bk)
   \<and> (\<forall>r choice x. resolve_backup cfg e r choice bk = Some x
         \<longrightarrow> x \<in> set (get_backup_list cfg e bk))
   \<and> (\<forall>r place choice skip sv. fst (restore_backup cfg e r place choice skip sv) \<longrightarrow>
         (\<exists>bk2 x snap. backup_root place sv = Some bk2
            \<and> resolve_backup cfg e r choice bk2 = Some x
            \<and> x \<in> set (get_backup_list cfg e bk2)
            \<and> snapshot_at place (snd (delete_items r (map fst sv) sv)) x = Some (Dir snap)))"
proof -
  have a: "\<forall>x \<in> set (get_backup_list cfg e bk).
       matches_backup cfg (entry_name x) \<and> \<not> prefix ''.'' (entry_name x)"
    using hidden_not_matches get_backup_list_names by blast
  have b: "Here (staging_name ts sfx) \<notin> set (get_backup_list cfg e bk)"
  proof
    assume "Here (staging_name ts sfx) \<in> set (get_backup_list cfg e bk)"
    then have "\<not> prefix ''.'' (entry_name (Here (staging_name ts sfx)))" using a by blast
    then show False using staging_name_hidden by simp
  qed
  have c: "prefix ''.'' s \<longrightarrow>
        get_backup_list cfg e (put_entry s v bk) = get_backup_list cfg e bk
        \<and> get_backup_list cfg e (remove_entry s bk) = get_backup_list cfg e bk"
    by (simp add: hidden_not_matches get_backup_list_put_hidden get_backup_list_remove_hidden)
  have d: "mkdtemp e2 bk = Some tmp \<longrightarrow>
        get_backup_list cfg e (staged cfg2 e2 tmp src bk) = get_backup_list cfg e bk"
    using mkdtemp_hidden[of e2 bk tmp cfg] by (simp add: get_backup_list_staged)
  have f: "\<forall>r choice x. resolve_backup cfg e r choice bk = Some x
         \<longrightarrow> x \<in> set (get_backup_list cfg e bk)"
    using resolve_backup_listed by blast
  have g: "\<forall>r place choice skip sv. fst (restore_backup cfg e r place choice skip sv) \<longrightarrow>
         (\<exists>bk2 x snap. backup_root place sv = Some bk2
            \<and> resolve_backup cfg e r choice bk2 = Some x
            \<and> x \<in> set (get_backup_list cfg e bk2)
            \<and> snapshot_at place (snd (delete_items r (map fst sv) sv)) x = Some (Dir snap))"
    using restore_backup_resolved by blast
  from a b c d f g show ?thesis by blast
qed

theorem staging_never_listed_witness:
  "get_backup_list example_config (calm_env []) example_root = [Here ''backup_20240101_120000'']
  \<and> prefix ''.'' ''.backup_20240102_120000.q7''
  \<and> get_backup_list example_config (calm_env [])
       (remove_entry ''.backup_20240102_120000.q7'' example_root) = [Here ''backup_20240101_120000'']
  \<and> mkdtemp (calm_env ''20240103_120000'') example_root = Some ''.backup_20240103_120000.k3x9''
  \<and> get_backup_list example_config (calm_env [])
       (staged example_config (calm_env ''20240103_120000'') ''.backup_20240103_120000.k3x9''
          example_save example_root) = [Here ''backup_20240101_120000'']
  \<and> resolve_backup example_config (calm_env []) calm_restore (Some 1) example_root
       = Some (Here ''backup_20240101_120000'')
  \<and> restore_backup example_config (calm_env []) calm_restore (Outside example_root) (Some 1) True
       example_save = (True, [(''a.txt'', File ''abc'')])"
proof -
  have l: "get_backup_list example_config (calm_env []) example_root = [Here ''backup_20240101_120000'']"
    by (simp add: eval_defs)
  have p: "prefix ''.'' ''.backup_20240102_120000.q7''" by simp
  have m: "mkdtemp (calm_env ''20240103_120000'') example_root = Some ''.backup_20240103_120000.k3x9''"
    by (simp add: mkdtemp_def calm_env_def staging_name_def backup_name_def lookup_def example_root_def)
  have r: "resolve_backup example_config (calm_env []) calm_restore (Some 1) example_root
       = Some (Here ''backup_20240101_120000'')"
    by (simp add: resolve_backup_def l)
  have rs: "restore_backup example_config (calm_env []) calm_restore (Outside example_root) (Some 1) True
       example_save = (True, [(''a.txt'', File ''abc'')])"
  proof -
    have d: "delete_items calm_restore (map fst example_save) example_save = (True, [])"
      by (simp add: calm_restore_def example_save_def lookup_def remove_entry_def)
    have s: "snapshot_at (Outside example_root) [] (Here ''backup_20240101_120000'')
        = Some (Dir [(''a.txt'', File ''abc'')])"
      by (simp add: snapshot_at_def backup_root_def example_root_def lookup_def)
    have c: "copy_items calm_restore (count_files_in [(''a.txt'', File ''abc'')])
        [(''a.txt'', File ''abc'')] [] = (True, [(''a.txt'', File ''abc'')])"
      by (simp add: calm_restore_def lookup_def)
    have b: "backup_root (Outside example_root) example_save = Some example_root"
      by (simp add: backup_root_def)
    show ?thesis
      unfolding restore_backup_def b option.case r d prod.case bool.case s node.case c
      by simp
  qed
  note t = staging_never_listed[of example_config "calm_env []" example_root "''20240102_120000''" "''q7''"
       "''.backup_20240102_120000.q7''" "Dir []"
       "calm_env ''20240103_120000''" "''.backup_20240103_120000.k3x9''" example_config example_save]
  have t3: "get_backup_list example_config (calm_env [])
       (remove_entry ''.backup_20240102_120000.q7'' example_root)
      = get_backup_list example_config (calm_env []) example_root"
    using t[THEN conjunct2, THEN conjunct2, THEN conjunct1] p by blast
  have t4: "get_backup_list example_config (calm_env [])
       (staged example_config (calm_env ''20240103_120000'') ''.backup_20240103_120000.k3x9''
          example_save example_root)
      = get_backup_list example_config (calm_env []) example_root"
    using t[THEN conjunct2, THEN conjunct2, THEN conjunct2, THEN conjunct1] m by blast
  show ?thesis
    using l p m r rs t3 t4 by simp
qed

theorem listing_shows_files_and_partial_copies:
  "get_backup_list example_config (calm_env []) [(''backup_notes.txt'', File ''x'')]
     = [Here ''backup_notes.txt'']
   \<and> resolve_backup example_config (calm_env []) calm_restore (Some 1)
       [(''backup_notes.txt'', File ''x'')] = Some (Here ''backup_notes.txt'')
   \<and> restore_backup example_config (calm_env []) calm_restore
       (Outside [(''backup_notes.txt'', File ''x'')]) (Some 1) True example_save = (False, [])
   \<and> create_backup example_config (cross_device_env ''20240103_120000'') None example_save []
     = (None, [(''backup_20240103_120000'', Dir [(''a.txt'', File ''ab'')])])
   \<and> get_backup_list example_config (calm_env [])
       (snd (create_backup example_config (cross_device_env ''20240103_120000'') None example_save []))
     = [Here ''backup_20240103_120000'']"
proof -
  have l: "get_backup_list example_config (calm_env []) [(''backup_notes.txt'', File ''x'')]
     = [Here ''backup_notes.txt'']"
    by (simp add: eval_defs)
  have r: "resolve_backup example_config (calm_env []) calm_restore (Some 1)
       [(''backup_notes.txt'', File ''x'')] = Some (Here ''backup_notes.txt'')"
    by (simp add: resolve_backup_def l)
  have rs: "restore_backup example_config (calm_env []) calm_restore
       (Outside [(''backup_notes.txt'', File ''x'')]) (Some 1) True example_save = (False, [])"
  proof -
    have d: "delete_items calm_restore (map fst example_save) example_save = (True, [])"
      by (simp add: calm_restore_def example_save_def lookup_def remove_entry_def)
    have s: "snapshot_at (Outside [(''backup_notes.txt'', File ''x'')]) [] (Here ''backup_notes.txt'')
        = Some (File ''x'')"
      by (simp add: snapshot_at_def backup_root_def lookup_def)
    have b: "backup_root (Outside [(''backup_notes.txt'', File ''x'')]) example_save
        = Some [(''backup_notes.txt'', File ''x'')]"
      by (simp add: backup_root_def)
    show ?thesis
      unfolding restore_backup_def b option.case r d prod.case bool.case s node.case
      by simp
  qed
  have c: "create_backup example_config (cross_device_env ''20240103_120000'') None example_save []
     = (None, [(''backup_20240103_120000'', Dir [(''a.txt'', File ''ab'')])])"
    by (simp add: cross_device_env_def eval_defs)
  have l2: "get_backup_list example_config (calm_env [])
       [(''backup_20240103_120000'', Dir [(''a.txt'', File ''ab'')])] = [Here ''backup_20240103_120000'']"
    by (simp add: eval_defs)
  show ?thesis using l r rs c l2 by simp
qed

subsection \<open>Listing and pruning\<close>

lemma snapshot_names_remove_entry:
  "snapshot_names cfg (remove_entry n bk) = filter (\<lambda>x. x \<noteq> n) (snapshot_names cfg bk)"
proof -
  have "snapshot_names cfg (remove_entry n bk)
        = rev (sort (filter (\<lambda>x. x \<noteq> n) (filter (matches_backup cfg) (map fst bk))))"
    by (simp add: snapshot_names_def names_remove_entry conj_commute)
  also have "\<dots> = filter (\<lambda>x. x \<noteq> n) (snapshot_names cfg bk)"
    by (simp only: snapshot_names_def rev_filter filter_sort[symmetric])
  finally show ?thesis .
qed

lemma sort_snoc_greatest:
  fixes n :: "'a :: linorder"
  assumes "\<forall>y \<in> set ys. y \<le> n"
  shows "sort (ys @ [n]) = sort ys @ [n]"
proof (rule properties_for_sort)
  show "mset (sort ys @ [n]) = mset (ys @ [n])" by simp
  show "sorted (sort ys @ [n])" using assms by (simp add: sorted_append)
qed

lemma snapshot_names_put_new:
  assumes "n \<notin> fst ` set bk" and "matches_backup cfg n"
    and "\<forall>x \<in> set (snapshot_names cfg bk). x < n"
  shows "snapshot_names cfg (put_entry n v bk) = n # snapshot_names cfg bk"
proof -
  have "\<forall>y \<in> set (filter (matches_backup cfg) (map fst bk)). y \<le> n"
    using assms(3) by (auto simp: snapshot_names_def)
  then show ?thesis
    using assms(1,2) by (simp add: snapshot_names_def names_put_entry sort_snoc_greatest)
qed

lemma snapshot_names_cong:
  "map fst bk = map fst bk' \<Longrightarrow> snapshot_names cfg bk = snapshot_names cfg bk'"
  by (simp add: snapshot_names_def)

lemma snapshots_are_dirs_put:
  assumes "snapshots_are_dirs cfg bk" shows "snapshots_are_dirs cfg (put_entry n (Dir d) bk)"
  unfolding snapshots_are_dirs_def
proof (clarify)
  fix k v assume "(k, v) \<in> set (put_entry n (Dir d) bk)" and m: "matches_backup cfg k"
  then have "(k, v) = (n, Dir d) \<or> (k, v) \<in> set bk" using set_put_entry[of n "Dir d" bk] by blast
  then show "\<exists>d. v = Dir d" using assms m unfolding snapshots_are_dirs_def by blast
qed

lemma snapshots_are_dirs_put_hidden:
  assumes "snapshots_are_dirs cfg bk" and "\<not> matches_backup cfg n"
  shows "snapshots_are_dirs cfg (put_entry n v bk)"
  unfolding snapshots_are_dirs_def
proof (clarify)
  fix k w assume "(k, w) \<in> set (put_entry n v bk)" and m: "matches_backup cfg k"
  then have "(k, w) = (n, v) \<or> (k, w) \<in> set bk" using set_put_entry[of n v bk] by blast
  then show "\<exists>d. w = Dir d" using assms m unfolding snapshots_are_dirs_def by blast
qed

lemma snapshots_are_dirs_remove:
  "snapshots_are_dirs cfg bk \<Longrightarrow> snapshots_are_dirs cfg (remove_entry n bk)"
  by (auto simp: snapshots_are_dirs_def remove_entry_def)

lemma snapshots_are_dirs_write_into:
  "snapshots_are_dirs cfg bk \<Longrightarrow> snapshots_are_dirs cfg (write_into dname fname bytes bk)"
  by (auto simp: write_into_def snapshots_are_dirs_put split: option.splits node.splits)

lemma remove_entry_absent: "n \<notin> fst ` set bk \<Longrightarrow> remove_entry n bk = bk"
  by (induction bk) (auto simp: remove_entry_def)

lemma rmtree_best_effort_snapshot:
  assumes "snapshots_are_dirs cfg bk" and "matches_backup cfg n" and "rmtree_error e n = None"
  shows "rmtree_best_effort e n bk = remove_entry n bk"
proof (cases "lookup bk n")
  case None
  then have "remove_entry n bk = bk" by (simp add: lookup_None_iff remove_entry_absent)
  then show ?thesis using None by (simp add: rmtree_best_effort_def safe_rmtree_def)
next
  case (Some v)
  then obtain d where "v = Dir d"
    using assms(1,2) lookup_in_set[OF Some] by (auto simp: snapshots_are_dirs_def)
  then show ?thesis using Some assms(3) by (simp add: rmtree_best_effort_def safe_rmtree_def)
qed

lemma delete_each_snapshots:
  "snapshots_are_dirs cfg bk \<Longrightarrow>
   \<forall>n \<in> set ns. matches_backup cfg n \<and> rmtree_error e n = None \<Longrightarrow>
     snapshot_names cfg (delete_each e (map Here ns) bk)
       = filter (\<lambda>x. x \<notin> set ns) (snapshot_names cfg bk)
     \<and> snapshots_are_dirs cfg (delete_each e (map Here ns) bk)"
proof (induction ns arbitrary: bk)
  case Nil
  then show ?case by simp
next
  case (Cons n ns)
  have r: "rmtree_best_effort e n bk = remove_entry n bk"
    using rmtree_best_effort_snapshot[of cfg bk n e] Cons.prems by simp
  have f: "filter (\<lambda>x. x \<notin> set ns) (filter (\<lambda>x. x \<noteq> n) xs)
        = filter (\<lambda>x. x \<notin> set (n # ns)) xs" for xs :: "string list"
    by (induction xs) auto
  have d: "snapshots_are_dirs cfg (remove_entry n bk)"
    using Cons.prems(1) by (rule snapshots_are_dirs_remove)
  have p: "\<forall>n \<in> set ns. matches_backup cfg n \<and> rmtree_error e n = None"
    using Cons.prems(2) by simp
  show ?case
    using Cons.IH[OF d p] r f[of "snapshot_names cfg bk"]
    by (simp add: snapshot_names_remove_entry)
qed

lemma filter_not_in_drop:
  assumes "distinct xs"
  shows "filter (\<lambda>x. x \<notin> set (drop k xs)) xs = take k xs"
proof -
  have dj: "set (take k xs) \<inter> set (drop k xs) = {}"
    using assms by (metis append_take_drop_id distinct_append)
  have a: "filter (\<lambda>x. x \<notin> set (drop k xs)) (take k xs) = take k xs"
    using dj by (simp add: filter_id_conv disjoint_iff)
  have b: "filter (\<lambda>x. x \<notin> set (drop k xs)) (drop k xs) = []"
    by (simp add: filter_empty_conv)
  have "filter (\<lambda>x. x \<notin> set (drop k xs)) xs
        = filter (\<lambda>x. x \<notin> set (drop k xs)) (take k xs)
          @ filter (\<lambda>x. x \<notin> set (drop k xs)) (drop k xs)"
    by (metis append_take_drop_id filter_append)
  then show ?thesis by (simp only: a b append_Nil2)
qed

lemma cleanup_old_backups_plain:
  assumes "\<not> has_magic (backup_dir cfg)" and "0 \<le> max_backups cfg"
  shows "cleanup_old_backups cfg e bk
     = delete_each e (map Here (drop (nat (max_backups cfg)) (snapshot_names cfg bk))) bk"
proof (cases "int (length (snapshot_names cfg bk)) > max_backups cfg")
  case True
  then show ?thesis
    using assms by (simp add: cleanup_old_backups_def get_backup_list_plain slice_from_def drop_map)
next
  case False
  then have "drop (nat (max_backups cfg)) (snapshot_names cfg bk) = []" by simp
  then show ?thesis
    using assms False by (simp add: cleanup_old_backups_def get_backup_list_plain)
qed

lemma cleanup_old_backups_names:
  assumes plain: "\<not> has_magic (backup_dir cfg)"
    and rm: "\<forall>n \<in> set (snapshot_names cfg bk). rmtree_error e n = None"
    and dirs: "snapshots_are_dirs cfg bk"
    and dist: "distinct (snapshot_names cfg bk)" and k: "0 \<le> max_backups cfg"
  shows "snapshot_names cfg (cleanup_old_backups cfg e bk)
           = take (nat (max_backups cfg)) (snapshot_names cfg bk)
     \<and> snapshots_are_dirs cfg (cleanup_old_backups cfg e bk)"
proof -
  have m: "\<forall>n \<in> set (drop (nat (max_backups cfg)) (snapshot_names cfg bk)).
             matches_backup cfg n \<and> rmtree_error e n = None"
    using rm by (auto simp: snapshot_names_set dest!: in_set_dropD)
  show ?thesis
    using delete_each_snapshots[OF dirs m] filter_not_in_drop[OF dist]
    by (simp add: cleanup_old_backups_plain[OF plain k])
qed

lemma write_metadata_names: "map fst (write_metadata e final method descr rec bk) = map fst bk"
  by (simp add: write_metadata_def write_into_names split: option.splits node.splits)

lemma snapshots_are_dirs_write_metadata:
  "snapshots_are_dirs cfg bk \<Longrightarrow> snapshots_are_dirs cfg (write_metadata e final method descr rec bk)"
  by (simp add: write_metadata_def snapshots_are_dirs_write_into split: option.splits node.splits)

lemma with_description_names: "map fst (with_description descr tmp bk) = map fst bk"
  by (simp add: with_description_def write_into_names split: option.splits)

lemma with_description_staging:
  "lookup bk tmp = Some (Dir d) \<Longrightarrow> \<exists>d'. lookup (with_description descr tmp bk) tmp = Some (Dir d')"
  by (simp add: with_description_def write_into_def lookup_put_entry split: option.splits)

lemma put_entry_twice: "put_entry n v (put_entry n w d) = put_entry n v d"
  by (induction d) auto

lemma publish_success_general:
  assumes "publish e tmp final bk = (Some m, bk4)"
  shows "\<exists>bk1. remove_existing e final bk = Inr bk1 \<and> bk4 = rename_entry tmp final bk1
      \<and> (m = ''atomic'' \<or> m = ''copied'')"
proof (cases "remove_existing e final bk")
  case (Inl x)
  obtain err bk' where x: "x = (err, bk')" by (cases x)
  show ?thesis
  proof (cases "err = OSError EXDEV")
    case False
    then show ?thesis using assms Inl x by (simp add: publish_def)
  next
    case True
    have l: "lookup bk final \<noteq> None"
      using Inl by (auto simp: remove_existing_def split: option.splits)
    have "remove_existing e final bk' = Inl (err, bk')"
      using Inl x l
      by (auto simp: remove_existing_def safe_rmtree_def lookup_put_entry put_entry_twice
          split: option.splits node.splits)
    then show ?thesis using assms Inl x True by (simp add: publish_def)
  qed
next
  case (Inr bk1)
  have "bk4 = rename_entry tmp final bk1 \<and> (m = ''atomic'' \<or> m = ''copied'')"
    using assms publish_after_removal[OF Inr, of tmp]
    by (auto simp: move_fallback_def split: option.splits if_splits move_result.splits)
  then show ?thesis using Inr by simp
qed

lemma publish_success:
  assumes "publish e tmp final bk = (Some m, bk4)" and "lookup bk final = None"
  shows "bk4 = rename_entry tmp final bk"
  using publish_success_general[OF assms(1)] remove_existing_again[OF assms(2), of e] by auto

lemma create_backup_success:
  assumes "fst (create_backup cfg e descr src bk) \<noteq> None"
  shows "\<exists>tmp m bk4. mkdtemp e bk = Some tmp
     \<and> publish e tmp (backup_name (timestamp e))
          (with_description descr tmp (staged cfg e tmp src bk)) = (Some m, bk4)
     \<and> create_backup cfg e descr src bk =
        (Some (backup_name (timestamp e)), cleanup_old_backups cfg e
           (write_metadata e (backup_name (timestamp e)) m
              (if given descr then descr else None) None bk4))"
  using assms
  by (auto simp: create_backup_def split: if_splits option.splits prod.splits)

lemma staged_entry:
  "\<exists>d. lookup (with_description descr tmp (staged cfg e tmp src bk)) tmp = Some (Dir d)"
  using with_description_staging[of "staged cfg e tmp src bk" tmp _ descr]
  by (auto simp: staged_def lookup_put_entry)

lemma staged_names:
  "map fst (with_description descr tmp (staged cfg e tmp src bk)) = map fst (put_entry tmp (Dir []) bk)"
  by (simp add: with_description_names staged_def names_put_entry)

lemma create_backup_names:
  assumes ok: "fst (create_backup cfg e descr src bk) \<noteq> None"
    and plain: "\<not> has_magic (backup_dir cfg)"
    and rm: "\<forall>n \<in> set (snapshot_names cfg bk). rmtree_error e n = None"
    and dirs: "snapshots_are_dirs cfg bk"
    and newer: "\<forall>x \<in> set (snapshot_names cfg bk). x < backup_name (timestamp e)"
    and dist: "distinct (snapshot_names cfg bk)"
    and k: "1 \<le> max_backups cfg"
  shows "snapshot_names cfg (snd (create_backup cfg e descr src bk))
           = take (nat (max_backups cfg)) (backup_name (timestamp e) # snapshot_names cfg bk)
         \<and> snapshots_are_dirs cfg (snd (create_backup cfg e descr src bk))"
proof -
  let ?final = "backup_name (timestamp e)"
  from create_backup_success[OF ok] obtain tmp m bk4 where tmp: "mkdtemp e bk = Some tmp"
    and pub: "publish e tmp ?final (with_description descr tmp (staged cfg e tmp src bk)) = (Some m, bk4)"
    and res: "create_backup cfg e descr src bk =
        (Some ?final, cleanup_old_backups cfg e
           (write_metadata e ?final m (if given descr then descr else None) None bk4))"
    by blast
  let ?bk3 = "with_description descr tmp (staged cfg e tmp src bk)"
  have hid: "\<not> matches_backup cfg tmp" using tmp by (rule mkdtemp_hidden)
  have ne: "tmp \<noteq> ?final" using hid backup_name_matches by auto
  have fresh: "?final \<notin> fst ` set bk"
    using newer snapshot_names_set[of cfg bk] backup_name_matches[of cfg "timestamp e"] by auto
  have n3: "map fst ?bk3 = map fst (put_entry tmp (Dir []) bk)" by (rule staged_names)
  have l3: "snapshot_names cfg ?bk3 = snapshot_names cfg bk"
    using snapshot_names_cong[OF n3] snapshot_names_put_hidden[OF hid] by simp
  have d3: "snapshots_are_dirs cfg ?bk3"
    unfolding with_description_def staged_def
    using dirs hid
    by (auto simp: snapshots_are_dirs_put_hidden snapshots_are_dirs_write_into split: option.splits)
  have "?final \<notin> set (map fst ?bk3)"
    unfolding n3 using fresh ne by (simp add: names_put_entry)
  then have f3: "lookup ?bk3 ?final = None" by (simp add: lookup_None_iff)
  obtain d where t3: "lookup ?bk3 tmp = Some (Dir d)" using staged_entry by blast
  have bk4: "bk4 = put_entry ?final (Dir d) (remove_entry tmp ?bk3)"
    using publish_success[OF pub f3] t3 by (simp add: rename_entry_def)
  have fr: "?final \<notin> fst ` set (remove_entry tmp ?bk3)"
    using f3 lookup_remove_entry[of tmp ?bk3 ?final] ne lookup_None_iff[of "remove_entry tmp ?bk3" ?final]
    by simp
  have lr: "snapshot_names cfg (remove_entry tmp ?bk3) = snapshot_names cfg bk"
    using snapshot_names_remove_hidden[OF hid] l3 by simp
  have l4: "snapshot_names cfg bk4 = ?final # snapshot_names cfg bk"
    unfolding bk4 using snapshot_names_put_new[OF fr backup_name_matches] newer lr by simp
  have d4: "snapshots_are_dirs cfg bk4"
    unfolding bk4 using d3 by (simp add: snapshots_are_dirs_put snapshots_are_dirs_remove)
  let ?bk5 = "write_metadata e ?final m (if given descr then descr else None) None bk4"
  have l5: "snapshot_names cfg ?bk5 = ?final # snapshot_names cfg bk"
    using snapshot_names_cong[OF write_metadata_names] l4 by simp
  have d5: "snapshots_are_dirs cfg ?bk5" using d4 by (rule snapshots_are_dirs_write_metadata)
  have dist5: "distinct (snapshot_names cfg ?bk5)"
    using l5 dist newer by auto
  have k0: "0 \<le> max_backups cfg" using k by simp
  have k1: "nat (max_backups cfg) = Suc (nat (max_backups cfg) - 1)" using k by simp
  have "drop (nat (max_backups cfg)) (snapshot_names cfg ?bk5)
        = drop (nat (max_backups cfg) - 1) (snapshot_names cfg bk)"
    unfolding l5 by (subst k1) simp
  then have sub: "set (drop (nat (max_backups cfg)) (snapshot_names cfg ?bk5)) \<subseteq> set (snapshot_names cfg bk)"
    by (simp add: set_drop_subset)
  have m: "\<forall>n \<in> set (drop (nat (max_backups cfg)) (snapshot_names cfg ?bk5)).
             matches_backup cfg n \<and> rmtree_error e n = None"
  proof (intro ballI conjI)
    fix n assume "n \<in> set (drop (nat (max_backups cfg)) (snapshot_names cfg ?bk5))"
    then have n: "n \<in> set (snapshot_names cfg bk)" using sub by blast
    show "matches_backup cfg n" using n by (simp add: snapshot_names_set)
    show "rmtree_error e n = None" using n rm by blast
  qed
  have "snapshot_names cfg (cleanup_old_backups cfg e ?bk5)
           = take (nat (max_backups cfg)) (snapshot_names cfg ?bk5)
     \<and> snapshots_are_dirs cfg (cleanup_old_backups cfg e ?bk5)"
    using delete_each_snapshots[OF d5 m] filter_not_in_drop[OF dist5]
    by (simp add: cleanup_old_backups_plain[OF plain k0])
  then show ?thesis unfolding res using l5 by simp
qed

lemma take_Cons_take: "1 \<le> k \<Longrightarrow> take k (n # take k xs) = take k (n # xs)"
  by (cases k) (simp_all add: min_def)

lemma create_backups_names:
  assumes k: "1 \<le> max_backups cfg" and plain: "\<not> has_magic (backup_dir cfg)"
  shows "snapshots_are_dirs cfg bk \<Longrightarrow>
     snapshot_names cfg bk = take (nat (max_backups cfg)) (rev ps) \<Longrightarrow>
     sorted_wrt (<) (ps @ map (\<lambda>c. backup_name (timestamp (fst c))) cs) \<Longrightarrow>
     \<forall>r \<in> set (fst (create_backups cfg cs bk)). r \<noteq> None \<Longrightarrow>
     \<forall>c \<in> set cs. \<forall>n \<in> set ps \<union> (\<lambda>c. backup_name (timestamp (fst c))) ` set cs.
        rmtree_error (fst c) n = None \<Longrightarrow>
     snapshot_names cfg (snd (create_backups cfg cs bk))
       = take (nat (max_backups cfg)) (rev (ps @ map (\<lambda>c. backup_name (timestamp (fst c))) cs))"
proof (induction cs arbitrary: bk ps)
  case Nil
  then show ?case by simp
next
  case (Cons c cs)
  obtain e descr src where c: "c = (e, descr, src)" by (cases c) auto
  let ?n = "backup_name (timestamp e)"
  let ?r = "create_backup cfg e descr src bk"
  have ok: "fst ?r \<noteq> None" using Cons.prems(4) c by (simp add: Let_def)
  have sub: "set (snapshot_names cfg bk) \<subseteq> set ps"
    using Cons.prems(2) by (auto dest: in_set_takeD)
  have rm: "\<forall>n \<in> set (snapshot_names cfg bk). rmtree_error e n = None"
    using Cons.prems(5) c sub by auto
  have sw: "sorted_wrt (<) ps" and lt: "\<forall>x \<in> set ps. x < ?n"
    using Cons.prems(3) c by (auto simp: sorted_wrt_append)
  have newer: "\<forall>x \<in> set (snapshot_names cfg bk). x < ?n"
    using lt sub by auto
  have "distinct ps" using sw strict_sorted_iff by blast
  then have dist: "distinct (snapshot_names cfg bk)"
    using Cons.prems(2) by (simp add: distinct_take)
  have k1: "1 \<le> nat (max_backups cfg)" using k by simp
  have step: "snapshot_names cfg (snd ?r) = take (nat (max_backups cfg)) (rev (ps @ [?n]))"
    and d: "snapshots_are_dirs cfg (snd ?r)"
    using create_backup_names[OF ok plain rm Cons.prems(1) newer dist k] Cons.prems(2)
      take_Cons_take[OF k1] by simp_all
  have s': "sorted_wrt (<) ((ps @ [?n]) @ map (\<lambda>c. backup_name (timestamp (fst c))) cs)"
    using Cons.prems(3) c by simp
  have ok': "\<forall>r \<in> set (fst (create_backups cfg cs (snd ?r))). r \<noteq> None"
    using Cons.prems(4) c by (simp add: Let_def)
  have rm': "\<forall>c \<in> set cs. \<forall>n \<in> set (ps @ [?n]) \<union> (\<lambda>c. backup_name (timestamp (fst c))) ` set cs.
        rmtree_error (fst c) n = None"
    using Cons.prems(5) c by auto
  show ?case
    using Cons.IH[OF d step s' ok' rm'] c by (simp add: Let_def)
qed

lemma backup_name_less: "backup_name a < backup_name b \<longleftrightarrow> a < b"
  by (simp add: backup_name_def)

lemma lookup_rmtree_best_effort:
  "lookup (rmtree_best_effort e n bk) m =
     (if m = n
      then (case lookup bk n of
              Some (Dir d) \<Rightarrow>
                (case rmtree_error e n of None \<Rightarrow> None | Some (err, rest) \<Rightarrow> Some (Dir rest))
            | v \<Rightarrow> v)
      else lookup bk m)"
  by (auto simp: rmtree_best_effort_def safe_rmtree_def lookup_remove_entry lookup_put_entry
      split: option.splits node.splits)

lemma lookup_delete_each:
  "lookup (delete_each e (map Here ns) bk) m =
     (if m \<in> set ns
      then (case lookup bk m of
              Some (Dir d) \<Rightarrow>
                (case rmtree_error e m of None \<Rightarrow> None | Some (err, rest) \<Rightarrow> Some (Dir rest))
            | v \<Rightarrow> v)
      else lookup bk m)"
proof (induction ns arbitrary: bk)
  case Nil
  then show ?case by simp
next
  case (Cons n ns)
  show ?case
    by (auto simp: Cons.IH lookup_rmtree_best_effort split: option.splits node.splits)
qed

lemma lookup_cleanup_old_backups:
  assumes "\<not> has_magic (backup_dir cfg)" and "0 \<le> max_backups cfg"
  shows "lookup (cleanup_old_backups cfg e bk) m =
     (if Here m \<in> set (slice_from (max_backups cfg) (get_backup_list cfg e bk))
      then (case lookup bk m of
              Some (Dir d) \<Rightarrow>
                (case rmtree_error e m of None \<Rightarrow> None | Some (err, rest) \<Rightarrow> Some (Dir rest))
            | v \<Rightarrow> v)
      else lookup bk m)"
proof -
  have "slice_from (max_backups cfg) (get_backup_list cfg e bk)
        = map Here (drop (nat (max_backups cfg)) (snapshot_names cfg bk))"
    using assms by (simp add: get_backup_list_plain slice_from_def drop_map)
  moreover have "Here m \<in> set (map Here xs) \<longleftrightarrow> m \<in> set xs" for xs by auto
  ultimately show ?thesis
    using assms by (simp add: cleanup_old_backups_plain lookup_delete_each)
qed


lemma example_first_call:
  "create_backup example_config (calm_env ''20240103_120000'') None example_save [] =
     (Some ''backup_20240103_120000'', [(''backup_20240103_120000'', Dir snapshot_plain)])"
  by (simp add: eval_defs)

lemma example_second_call:
  "create_backup example_config (calm_env ''20240103_120500'') (Some ''before boss'') example_save
     [(''backup_20240103_120000'', Dir snapshot_plain)] =
     (Some ''backup_20240103_120500'',
      [(''backup_20240103_120000'', Dir snapshot_plain),
       (''backup_20240103_120500'', Dir snapshot_described)])"
  by (simp add: eval_defs)

lemma example_third_call:
  "create_backup example_config (calm_env ''20240104_090000'') None example_save
     [(''backup_20240103_120000'', Dir snapshot_plain),
      (''backup_20240103_120500'', Dir snapshot_described)] =
     (Some ''backup_20240104_090000'',
      [(''backup_20240103_120500'', Dir snapshot_described),
       (''backup_20240104_090000'', Dir snapshot_plain)])"
  by (simp add: eval_defs)

lemma example_calls_run:
  "create_backups example_config example_calls [] =
     ([Some ''backup_20240103_120000'', Some ''backup_20240103_120500'',
       Some ''backup_20240104_090000''],
      [(''backup_20240103_120500'', Dir snapshot_described),
       (''backup_20240104_090000'', Dir snapshot_plain)])"
  by (simp add: example_calls_def example_first_call example_second_call example_third_call)

lemma example_same_second_call:
  "create_backup example_config (calm_env ''20240103_120000'') None example_save
     [(''backup_20240103_120000'', Dir snapshot_plain)] =
     (Some ''backup_20240103_120000'', [(''backup_20240103_120000'', Dir snapshot_plain)])"
  by (simp add: eval_defs)

lemma same_second_calls_run:
  "create_backups example_config same_second_calls [] =
     ([Some ''backup_20240103_120000'', Some ''backup_20240103_120000''],
      [(''backup_20240103_120000'', Dir snapshot_plain)])"
  by (simp add: same_second_calls_def example_first_call example_same_second_call)

lemma one_kept_first_call:
  "create_backup one_kept_config (calm_env ''20240103_120500'') None example_save [] =
     (Some ''backup_20240103_120500'', [(''backup_20240103_120500'', Dir snapshot_plain)])"
  by (simp add: one_kept_config_def eval_defs)

lemma one_kept_earlier_call:
  "create_backup one_kept_config (calm_env ''20240103_120000'') None example_save
     [(''backup_20240103_120500'', Dir snapshot_plain)] =
     (Some ''backup_20240103_120000'', [(''backup_20240103_120500'', Dir snapshot_plain)])"
  by (simp add: one_kept_config_def eval_defs)

lemma backwards_calls_run:
  "create_backups one_kept_config backwards_calls [] =
     ([Some ''backup_20240103_120500'', Some ''backup_20240103_120000''],
      [(''backup_20240103_120500'', Dir snapshot_plain)])"
  by (simp add: backwards_calls_def one_kept_first_call one_kept_earlier_call)

lemma stuck_first_call:
  "create_backup one_kept_config (calm_env ''20240103_120000'') None example_save [] =
     (Some ''backup_20240103_120000'', [(''backup_20240103_120000'', Dir snapshot_plain)])"
  by (simp add: one_kept_config_def eval_defs)

lemma stuck_second_call:
  "create_backup one_kept_config (stuck_env ''20240103_120500'') None example_save
     [(''backup_20240103_120000'', Dir snapshot_plain)] =
     (Some ''backup_20240103_120500'',
      [(''backup_20240103_120000'', Dir [(''a.txt'', File ''abc'')]),
       (''backup_20240103_120500'', Dir snapshot_plain)])"
  by (simp add: one_kept_config_def stuck_env_def eval_defs)

lemma stuck_calls_run:
  "create_backups one_kept_config stuck_calls [] =
     ([Some ''backup_20240103_120000'', Some ''backup_20240103_120500''],
      [(''backup_20240103_120000'', Dir [(''a.txt'', File ''abc'')]),
       (''backup_20240103_120500'', Dir snapshot_plain)])"
  by (simp add: stuck_calls_def stuck_first_call stuck_second_call)

lemma pattern_call:
  "create_backup pattern_config (calm_env ''20240103_120000'') None example_save [] =
     (Some ''backup_20240103_120000'', [(''backup_20240103_120000'', Dir snapshot_plain)])"
  by (simp add: pattern_config_def get_backup_list_def glob_backups_def eval_defs)

text \<open>
  C2 (retention). Let \<open>max_backups \<ge> 1\<close> and let the path of the backup root hold no
  glob metacharacter. From a backup root that lists nothing, after any sequence of
  successful \<^verbatim>\<open>create_backup\<close> calls made at strictly increasing timestamps, in
  which removing a snapshot that one of the calls created never raises, the listing
  is the newest \<open>min N max_backups\<close> snapshots created, newest first. Pruning, on any
  backup root, touches the entries beyond index \<open>max_backups\<close> of the newest-first
  listing and no other: such an entry is gone if it is a directory and its removal
  does not raise, is left with what the removal had not yet deleted if it raises,
  and stays as it is if it is a plain file. What happens to one entry does not
  depend on the removal of another.
\<close>

theorem retention_after_calls:
  assumes k: "1 \<le> max_backups cfg"
    and plain: "\<not> has_magic (backup_dir cfg)"
    and init: "get_backup_list cfg e0 bk = []"
    and ok: "\<forall>r \<in> set (fst (create_backups cfg cs bk)). r \<noteq> None"
    and clock: "sorted_wrt (<) (map (\<lambda>c. timestamp (fst c)) cs)"
    and rm: "\<forall>c \<in> set cs. \<forall>c' \<in> set cs.
               rmtree_error (fst c) (backup_name (timestamp (fst c'))) = None"
  shows "get_backup_list cfg e1 (snd (create_backups cfg cs bk))
           = map Here (take (nat (max_backups cfg))
                        (rev (map (\<lambda>c. backup_name (timestamp (fst c))) cs)))
     \<and> length (get_backup_list cfg e1 (snd (create_backups cfg cs bk)))
           = min (length cs) (nat (max_backups cfg))
     \<and> lookup (cleanup_old_backups cfg e' bk') m =
          (if Here m \<in> set (slice_from (max_backups cfg) (get_backup_list cfg e' bk'))
           then (case lookup bk' m of
                   Some (Dir d) \<Rightarrow>
                     (case rmtree_error e' m of
                        None \<Rightarrow> None
                      | Some (err, rest) \<Rightarrow> Some (Dir rest))
                 | v \<Rightarrow> v)
           else lookup bk' m)"
proof -
  have i0: "snapshot_names cfg bk = []"
    using init get_backup_list_plain[OF plain, of e0 bk] by simp
  have d: "snapshots_are_dirs cfg bk"
    using i0 snapshot_names_set[of cfg bk] by (auto simp: snapshots_are_dirs_def)
  have i: "snapshot_names cfg bk = take (nat (max_backups cfg)) (rev [])" using i0 by simp
  have "sorted_wrt (\<lambda>a b. backup_name a < backup_name b) (map (\<lambda>c. timestamp (fst c)) cs)"
    using clock by (simp add: backup_name_less)
  then have s: "sorted_wrt (<) ([] @ map (\<lambda>c. backup_name (timestamp (fst c))) cs)"
    by (simp add: sorted_wrt_map)
  have rm': "\<forall>c \<in> set cs. \<forall>n \<in> set [] \<union> (\<lambda>c. backup_name (timestamp (fst c))) ` set cs.
        rmtree_error (fst c) n = None"
    using rm by auto
  have "snapshot_names cfg (snd (create_backups cfg cs bk))
           = take (nat (max_backups cfg)) (rev (map (\<lambda>c. backup_name (timestamp (fst c))) cs))"
    using create_backups_names[OF k plain d i s ok rm'] by simp
  then have a: "get_backup_list cfg e1 (snd (create_backups cfg cs bk))
           = map Here (take (nat (max_backups cfg))
                        (rev (map (\<lambda>c. backup_name (timestamp (fst c))) cs)))"
    by (simp add: get_backup_list_plain[OF plain])
  have b: "length (get_backup_list cfg e1 (snd (create_backups cfg cs bk)))
           = min (length cs) (nat (max_backups cfg))"
    unfolding a by simp
  have k0: "0 \<le> max_backups cfg" using k by simp
  from a b lookup_cleanup_old_backups[OF plain k0, of e' bk' m] show ?thesis by blast
qed

theorem retention_after_calls_witness:
  "fst (create_backups example_config example_calls [])
       = [Some ''backup_20240103_120000'', Some ''backup_20240103_120500'',
          Some ''backup_20240104_090000'']
   \<and> get_backup_list example_config (calm_env []) (snd (create_backups example_config example_calls []))
       = [Here ''backup_20240104_090000'', Here ''backup_20240103_120500'']
   \<and> length (get_backup_list example_config (calm_env [])
        (snd (create_backups example_config example_calls []))) = 2"
proof -
  have k: "1 \<le> max_backups example_config" by (simp add: example_config_def)
  have p: "\<not> has_magic (backup_dir example_config)"
    by (simp add: has_magic_def example_config_def)
  have i: "get_backup_list example_config (calm_env []) [] = []"
    by (simp add: eval_defs)
  have ok: "\<forall>r \<in> set (fst (create_backups example_config example_calls [])). r \<noteq> None"
    unfolding example_calls_run by simp
  have c: "sorted_wrt (<) (map (\<lambda>c. timestamp (fst c)) example_calls)"
    by (simp add: example_calls_def calm_env_def)
  have rm: "\<forall>c \<in> set example_calls. \<forall>c' \<in> set example_calls.
               rmtree_error (fst c) (backup_name (timestamp (fst c'))) = None"
    by (simp add: example_calls_def calm_env_def)
  have t: "take (nat (max_backups example_config))
             (rev (map (\<lambda>c. backup_name (timestamp (fst c))) example_calls))
           = [''backup_20240104_090000'', ''backup_20240103_120500'']"
    by (simp add: example_calls_def calm_env_def backup_name_def example_config_def)
  have n: "min (length example_calls) (nat (max_backups example_config)) = 2"
    by (simp add: example_calls_def example_config_def)
  note r = retention_after_calls[OF k p i ok c rm, of "calm_env []"]
  have r1: "get_backup_list example_config (calm_env []) (snd (create_backups example_config example_calls []))
       = [Here ''backup_20240104_090000'', Here ''backup_20240103_120500'']"
    using r[THEN conjunct1] unfolding t by simp
  have r2: "length (get_backup_list example_config (calm_env [])
        (snd (create_backups example_config example_calls []))) = 2"
    using r[THEN conjunct2, THEN conjunct1] unfolding n .
  show ?thesis using r1 r2 by (simp add: example_calls_run)
qed

theorem retention_counterexamples:
  "fst (create_backups example_config same_second_calls [])
       = [Some ''backup_20240103_120000'', Some ''backup_20240103_120000'']
   \<and> get_backup_list example_config (calm_env []) (snd (create_backups example_config same_second_calls []))
       = [Here ''backup_20240103_120000'']
   \<and> fst (create_backups one_kept_config backwards_calls [])
       = [Some ''backup_20240103_120500'', Some ''backup_20240103_120000'']
   \<and> get_backup_list one_kept_config (calm_env []) (snd (create_backups one_kept_config backwards_calls []))
       = [Here ''backup_20240103_120500'']
   \<and> fst (create_backups one_kept_config stuck_calls [])
       = [Some ''backup_20240103_120000'', Some ''backup_20240103_120500'']
   \<and> get_backup_list one_kept_config (calm_env []) (snd (create_backups one_kept_config stuck_calls []))
       = [Here ''backup_20240103_120500'', Here ''backup_20240103_120000'']
   \<and> get_backup_list example_config (calm_env []) (snd (create_backups example_config [] example_root))
       = [Here ''backup_20240101_120000'']
   \<and> create_backups pattern_config [(calm_env ''20240103_120000'', None, example_save)] []
       = ([Some ''backup_20240103_120000''], [(''backup_20240103_120000'', Dir snapshot_plain)])
   \<and> get_backup_list pattern_config (calm_env [])
        (snd (create_backups pattern_config [(calm_env ''20240103_120000'', None, example_save)] []))
       = []
   \<and> get_backup_list one_kept_config (calm_env []) root_with_file
       = [Here ''backup_20240102_120000'', Here ''backup_20240101_120000'',
          Here ''backup_20230101_notes'']
   \<and> get_backup_list one_kept_config (calm_env [])
        (cleanup_old_backups one_kept_config (calm_env []) root_with_file)
       = [Here ''backup_20240102_120000'', Here ''backup_20230101_notes'']"
proof -
  have a: "get_backup_list example_config (calm_env []) [(''backup_20240103_120000'', Dir snapshot_plain)]
       = [Here ''backup_20240103_120000'']"
    by (simp add: eval_defs)
  have b: "get_backup_list one_kept_config (calm_env []) [(''backup_20240103_120500'', Dir snapshot_plain)]
       = [Here ''backup_20240103_120500'']"
    by (simp add: one_kept_config_def eval_defs)
  have c: "get_backup_list one_kept_config (calm_env [])
       [(''backup_20240103_120000'', Dir [(''a.txt'', File ''abc'')]),
        (''backup_20240103_120500'', Dir snapshot_plain)]
       = [Here ''backup_20240103_120500'', Here ''backup_20240103_120000'']"
    by (simp add: one_kept_config_def eval_defs)
  have d: "get_backup_list example_config (calm_env []) example_root = [Here ''backup_20240101_120000'']"
    by (simp add: eval_defs)
  have e: "get_backup_list pattern_config (calm_env []) [(''backup_20240103_120000'', Dir snapshot_plain)]
       = []"
    by (simp add: pattern_config_def get_backup_list_def glob_backups_def has_magic_def
        example_config_fields calm_env_def)
  have f: "get_backup_list one_kept_config (calm_env []) root_with_file
       = [Here ''backup_20240102_120000'', Here ''backup_20240101_120000'',
          Here ''backup_20230101_notes'']"
    by (simp add: one_kept_config_def root_with_file_def eval_defs)
  have g: "cleanup_old_backups one_kept_config (calm_env []) root_with_file
       = [(''backup_20230101_notes'', File ''x''), (''backup_20240102_120000'', Dir [])]"
    by (simp add: one_kept_config_def root_with_file_def eval_defs)
  have h: "get_backup_list one_kept_config (calm_env [])
       [(''backup_20230101_notes'', File ''x''), (''backup_20240102_120000'', Dir [])]
       = [Here ''backup_20240102_120000'', Here ''backup_20230101_notes'']"
    by (simp add: one_kept_config_def eval_defs)
  show ?thesis
    unfolding same_second_calls_run backwards_calls_run stuck_calls_run
    using a b c d e f g h by (simp add: pattern_call)
qed

end
